theory Spec2Isabelle
  imports Main
begin

section \<open>JSON values\<close>

text \<open>
  The collection engine of \<^verbatim>\<open>src/lib/collection.js\<close> works on parsed JSON: a collection is
  an array whose elements are normally objects (the documents). Objects are kept as
  association lists in property order. Numbers are modelled as integers; no property
  below depends on the arithmetic of non-integral numbers. Function values (the legacy
  callback arguments) are not JSON and are outside the model.
\<close>

datatype jsval =
    JUndefined
  | JNull
  | JBool bool
  | JNum int
  | JStr string
  | JArr "jsval list"
  | JObj "(string \<times> jsval) list"

type_synonym fields = "(string \<times> jsval) list"

text \<open>JavaScript truthiness, as used by \<^verbatim>\<open>!x\<close>, \<^verbatim>\<open>x || y\<close> and underscore's \<^verbatim>\<open>compact\<close>.\<close>

fun truthy :: "jsval \<Rightarrow> bool" where
  "truthy JUndefined = False"
| "truthy JNull = False"
| "truthy (JBool b) = b"
| "truthy (JNum n) = (n \<noteq> 0)"
| "truthy (JStr s) = (s \<noteq> [])"
| "truthy (JArr xs) = True"
| "truthy (JObj kvs) = True"

text \<open>\<^verbatim>\<open>_.isArray(x)\<close> and \<^verbatim>\<open>x instanceof Object\<close> on JSON values.\<close>

fun isArray :: "jsval \<Rightarrow> bool" where
  "isArray (JArr xs) = True"
| "isArray v = False"

fun instanceof_Object :: "jsval \<Rightarrow> bool" where
  "instanceof_Object (JArr xs) = True"
| "instanceof_Object (JObj kvs) = True"
| "instanceof_Object v = False"

fun is_number :: "jsval \<Rightarrow> bool" where
  "is_number (JNum n) = True"
| "is_number v = False"

text \<open>\<^verbatim>\<open>k in x\<close> for a value that passed \<^verbatim>\<open>instanceof Object\<close>: an own property.\<close>

fun has_key :: "string \<Rightarrow> jsval \<Rightarrow> bool" where
  "has_key k (JObj kvs) = (k \<in> fst ` set kvs)"
| "has_key k v = False"

text \<open>Reading \<^verbatim>\<open>obj[k]\<close> on an object: the value, or \<^verbatim>\<open>undefined\<close> when absent.\<close>

definition lookup :: "fields \<Rightarrow> string \<Rightarrow> jsval" where
  "lookup kvs k = (case map_of kvs k of None \<Rightarrow> JUndefined | Some v \<Rightarrow> v)"

text \<open>
  Writing \<^verbatim>\<open>obj[k] = v\<close> on an object: an existing property keeps its place, a new one
  is appended.
\<close>

fun assign :: "fields \<Rightarrow> string \<Rightarrow> jsval \<Rightarrow> fields" where
  "assign [] k v = [(k, v)]"
| "assign ((k', v') # kvs) k v =
     (if k' = k then (k, v) # kvs else (k', v') # assign kvs k v)"

text \<open>
  The own property \<open>k\<close> of a value, \<^verbatim>\<open>undefined\<close> when it has none. This is \<^verbatim>\<open>v[k]\<close> of the source
  where the engine reads \<open>$inc\<close> of an operator object that has it, \<open>nModified\<close> of a
  result and \<open>_id\<close> of an element, and on an object it tells as \<^verbatim>\<open>v[k]\<close> does whether the
  property is a number (what an object inherits is never one). It is not \<^verbatim>\<open>v[k]\<close> for the
  names an object inherits nor for the \<^verbatim>\<open>length\<close> and the indices of strings and arrays;
  \<open>field_value\<close> below is the reading that \<^verbatim>\<open>distinct\<close> makes.
\<close>

fun get_prop :: "jsval \<Rightarrow> string \<Rightarrow> jsval" where
  "get_prop (JObj kvs) k = lookup kvs k"
| "get_prop v k = JUndefined"

fun nullish :: "jsval \<Rightarrow> bool" where
  "nullish JUndefined = True"
| "nullish JNull = True"
| "nullish v = False"

text \<open>\<^verbatim>\<open>_.flatten(array)\<close>: nested arrays are spliced in, to any depth.\<close>

fun flatten :: "jsval list \<Rightarrow> jsval list" where
  "flatten [] = []"
| "flatten (JArr xs # rest) = flatten xs @ flatten rest"
| "flatten (x # rest) = x # flatten rest"

section \<open>Errors, promises and the storage backend\<close>

text \<open>
  The source rejects with message strings; the constructors follow the error taxonomy
  of the specification. \<open>TypeMismatch\<close> carries the property name and
  \<open>UnsupportedOperator\<close> the operator object that the message reports. \<open>TypeError\<close> is
  the exception JavaScript itself raises.
\<close>

datatype error =
    InvalidArgument string
  | LockError
  | IOError
  | TypeMismatch string
  | UnsupportedOperator jsval
  | TypeError

datatype outcome = Resolved jsval | Rejected error

text \<open>
  A promise is pending (\<open>None\<close>) or settled. \<^verbatim>\<open>resolve\<close> and \<^verbatim>\<open>reject\<close> settle a pending
  promise and do nothing on a settled one; neither ends the function that calls it.
\<close>

definition settle :: "outcome option \<Rightarrow> outcome \<Rightarrow> outcome option" where
  "settle s r = (case s of None \<Rightarrow> Some r | Some x \<Rightarrow> Some x)"

text \<open>A promise that has not been resolved.\<close>

definition pending_or_rejected :: "outcome option \<Rightarrow> bool" where
  "pending_or_rejected s = (case s of Some (Resolved r) \<Rightarrow> False | _ \<Rightarrow> True)"

datatype event = EvLock | EvUnlock | EvGet | EvSet "jsval list"

text \<open>
  Modelled from the spec: the state of the data handler (\<^verbatim>\<open>src/lib/dataHandler.js\<close>, not
  among the sources) behind a collection: the persisted sequence and whether the
  exclusive section is held. \<open>trace\<close> records every call made to the data handler;
  \<open>issued\<close> counts the identifiers handed out by \<^verbatim>\<open>util.generateUUID\<close>.
\<close>

record world =
  store :: "jsval list"
  held :: bool
  trace :: "event list"
  issued :: nat

type_synonym criteria = "fields option"

text \<open>
  What the engine takes from outside: whether a backend call fails (by the number of
  backend calls made before it), the identifier generator, and the criteria matcher
  \<^verbatim>\<open>json-criteria-ext.test\<close>.
\<close>

record env =
  lock_fails :: "nat \<Rightarrow> bool"
  get_fails :: "nat \<Rightarrow> bool"
  set_fails :: "nat \<Rightarrow> bool"
  generateUUID :: "nat \<Rightarrow> string"
  matchCriteria :: "jsval \<Rightarrow> criteria \<Rightarrow> bool"

datatype lock_reply = Waiting | Called "error option"

definition log :: "event \<Rightarrow> world \<Rightarrow> world" where
  "log e w = w\<lparr>trace := trace w @ [e]\<rparr>"

text \<open>
  Modelled from the spec: \<^verbatim>\<open>lock\<close> of the data handler, the acquisition of the exclusive
  section. It suspends while another holder exists (the callback is then never invoked),
  fails without taking the section, or takes it.
\<close>

definition lock :: "env \<Rightarrow> world \<Rightarrow> lock_reply \<times> world" where
  "lock env w =
     (if held w then (Waiting, log EvLock w)
      else if lock_fails env (length (trace w)) then (Called (Some LockError), log EvLock w)
      else (Called None, log EvLock (w\<lparr>held := True\<rparr>)))"

text \<open>
  Modelled from the spec: \<^verbatim>\<open>unlock\<close> of the data handler. It releases the exclusive
  section, never fails, and may be called when the section is not held.
\<close>

definition unlock :: "world \<Rightarrow> world" where
  "unlock w = log EvUnlock (w\<lparr>held := False\<rparr>)"

text \<open>
  Modelled from the spec: \<^verbatim>\<open>get\<close> of the data handler. It fails, or passes the complete
  persisted sequence in stored order to the callback.
\<close>

definition get :: "env \<Rightarrow> world \<Rightarrow> (error + jsval list) \<times> world" where
  "get env w =
     (if get_fails env (length (trace w)) then (Inl IOError, log EvGet w)
      else (Inr (store w), log EvGet w))"

text \<open>
  Modelled from the spec: \<^verbatim>\<open>set\<close> of the data handler. It fails and leaves the persisted
  sequence as it was, or replaces it by the one given.
\<close>

definition set_op :: "env \<Rightarrow> jsval list \<Rightarrow> world \<Rightarrow> error option \<times> world" where
  "set_op env documents w =
     (if set_fails env (length (trace w)) then (Some IOError, log (EvSet documents) w)
      else (None, log (EvSet documents) (w\<lparr>store := documents\<rparr>)))"

section \<open>insert\<close>

text \<open>
  \<^verbatim>\<open>data._id = util.generateUUID()\<close>: on an object the property is set; on an array it
  becomes a property of the array object, which is none of its elements.
\<close>

fun with_id :: "jsval \<Rightarrow> string \<Rightarrow> jsval" where
  "with_id (JObj kvs) i = JObj (assign kvs ''_id'' (JStr i))"
| "with_id v i = v"

definition insert_afterReadFile ::
  "env \<Rightarrow> jsval \<Rightarrow> outcome option \<Rightarrow> (error + jsval list) \<times> world \<Rightarrow> outcome option \<times> world" where
  "insert_afterReadFile env data s r =
     (case r of
        (Inl e, w) \<Rightarrow> (settle s (Rejected e), unlock w)
      | (Inr documents, w) \<Rightarrow>
          (let pushed = documents @ [data];
               documents' = (if isArray data then flatten pushed else pushed)
           in case set_op env documents' w of
                (err, w') \<Rightarrow>
                  (settle s (case err of Some e \<Rightarrow> Rejected e | None \<Rightarrow> Resolved data),
                   unlock w')))"

definition insert_afterLockFile ::
  "env \<Rightarrow> jsval \<Rightarrow> outcome option \<Rightarrow> lock_reply \<times> world \<Rightarrow> outcome option \<times> world" where
  "insert_afterLockFile env data s r =
     (case r of
        (Waiting, w) \<Rightarrow> (s, w)
      | (Called err, w) \<Rightarrow>
          insert_afterReadFile env data
            (case err of Some e \<Rightarrow> settle s (Rejected e) | None \<Rightarrow> s) (get env w))"

text \<open>
  \<^verbatim>\<open>Collection.prototype.insert\<close>. Falsy data is rejected, and the assignment of \<open>_id\<close>
  to \<^verbatim>\<open>undefined\<close> then raises inside the promise executor, which ends the call. On a
  truthy primitive the assignment raises in strict mode and the executor turns the
  exception into a rejection.
\<close>

definition insert_op :: "env \<Rightarrow> jsval \<Rightarrow> world \<Rightarrow> outcome option \<times> world" where
  "insert_op env data w =
     (if \<not> truthy data then
        (Some (Rejected (InvalidArgument ''No data passed to persist!'')), w)
      else if \<not> instanceof_Object data then
        (Some (Rejected TypeError), w\<lparr>issued := Suc (issued w)\<rparr>)
      else
        insert_afterLockFile env (with_id data (generateUUID env (issued w))) None
          (lock env (w\<lparr>issued := Suc (issued w)\<rparr>)))"

section \<open>update\<close>

record options =
  multi :: bool
  upsert :: bool
  retObj :: bool
  returnNew :: bool

text \<open>
  The fields of an options object are read for their truthiness only; \<open>returnNew\<close> is
  \<^verbatim>\<open>options.new\<close>. The default below is the one \<^verbatim>\<open>update\<close> installs when it is called
  without options.
\<close>

definition given_or :: "options \<Rightarrow> options option \<Rightarrow> options" where
  "given_or dflt opt = (case opt of None \<Rightarrow> dflt | Some given \<Rightarrow> given)"

definition update_defaults :: options where
  "update_defaults = \<lparr>multi = True, upsert = False, retObj = False, returnNew = False\<rparr>"

text \<open>An options object none of whose fields is set, as \<^verbatim>\<open>{}\<close>.\<close>

definition no_options :: options where
  "no_options = \<lparr>multi = False, upsert = False, retObj = False, returnNew = False\<rparr>"

text \<open>The properties that \<^verbatim>\<open>for (var propertyName in updateCriteria)\<close> visits.\<close>

definition entries :: "fields option \<Rightarrow> fields" where
  "entries u = (case u of None \<Rightarrow> [] | Some kvs \<Rightarrow> kvs)"

definition as_value :: "fields option \<Rightarrow> jsval" where
  "as_value u = (case u of None \<Rightarrow> JUndefined | Some kvs \<Rightarrow> JObj kvs)"

text \<open>
  \<^verbatim>\<open>document[k]\<close> and \<^verbatim>\<open>document[k] = v\<close> on an element of the collection. On \<^verbatim>\<open>null\<close>
  and \<^verbatim>\<open>undefined\<close> both raise, and in strict mode so does the write on a primitive.
  Index and \<^verbatim>\<open>length\<close> properties of strings and arrays are not modelled.
\<close>

fun read_prop :: "jsval \<Rightarrow> string \<Rightarrow> error + jsval" where
  "read_prop (JObj kvs) k = Inr (lookup kvs k)"
| "read_prop JUndefined k = Inl TypeError"
| "read_prop JNull k = Inl TypeError"
| "read_prop v k = Inr JUndefined"

fun put_prop :: "jsval \<Rightarrow> string \<Rightarrow> jsval \<Rightarrow> error + jsval" where
  "put_prop (JObj kvs) k v = Inr (JObj (assign kvs k v))"
| "put_prop (JArr xs) k v = Inr (JArr xs)"
| "put_prop d k v = Inl TypeError"

text \<open>
  The body of the match loop for one matched document (lines 261 to 282): the update
  criteria applied property by property. \<open>Inl\<close> is the error with which the loop is
  left at once.
\<close>

fun apply_update :: "jsval \<Rightarrow> fields \<Rightarrow> error + jsval" where
  "apply_update document [] = Inr document"
| "apply_update document ((propertyName, v) # rest) =
     (if instanceof_Object v then
        (if has_key ''$inc'' v then
           (case read_prop document propertyName of
              Inl e \<Rightarrow> Inl e
            | Inr cur \<Rightarrow>
                (case (cur, get_prop v ''$inc'') of
                   (JNum a, JNum b) \<Rightarrow>
                     (case put_prop document propertyName (JNum (a + b)) of
                        Inl e \<Rightarrow> Inl e
                      | Inr document' \<Rightarrow> apply_update document' rest)
                 | _ \<Rightarrow> Inl (TypeMismatch propertyName)))
         else Inl (UnsupportedOperator v))
      else
        (case put_prop document propertyName v of
           Inl e \<Rightarrow> Inl e
         | Inr document' \<Rightarrow> apply_update document' rest))"

text \<open>
  The match loop over the documents (lines 258 to 290). It yields the documents as
  mutated and \<^verbatim>\<open>matchedDocuments\<close>, or the error that ended it.
\<close>

fun update_loop ::
  "(jsval \<Rightarrow> bool) \<Rightarrow> fields \<Rightarrow> bool \<Rightarrow> jsval list \<Rightarrow> error + (jsval list \<times> jsval list)" where
  "update_loop m u mul [] = Inr ([], [])"
| "update_loop m u mul (document # rest) =
     (if m document then
        (case apply_update document u of
           Inl e \<Rightarrow> Inl e
         | Inr document' \<Rightarrow>
             (if \<not> mul then Inr (document' # rest, [document'])
              else
                (case update_loop m u mul rest of
                   Inl e \<Rightarrow> Inl e
                 | Inr (rest', matched) \<Rightarrow> Inr (document' # rest', document' # matched))))
      else
        (case update_loop m u mul rest of
           Inl e \<Rightarrow> Inl e
         | Inr (rest', matched) \<Rightarrow> Inr (document # rest', matched)))"

text \<open>
  The callback of \<^verbatim>\<open>documents.map\<close> in the empty-criteria branch (lines 303 to 318). Here
  an operator object without \<^verbatim>\<open>$inc\<close> is assigned like a plain value, and after a
  rejection the callback returns \<^verbatim>\<open>undefined\<close> for that document while the map goes on.
\<close>

fun fallback_doc :: "jsval \<Rightarrow> fields \<Rightarrow> error + jsval" where
  "fallback_doc doc [] = Inr doc"
| "fallback_doc doc ((propertyName, v) # rest) =
     (if instanceof_Object v \<and> has_key ''$inc'' v then
        (case read_prop doc propertyName of
           Inl e \<Rightarrow> Inl e
         | Inr cur \<Rightarrow>
             (case (cur, get_prop v ''$inc'') of
                (JNum a, JNum b) \<Rightarrow>
                  (case put_prop doc propertyName (JNum (a + b)) of
                     Inl e \<Rightarrow> Inl e
                   | Inr doc' \<Rightarrow> fallback_doc doc' rest)
              | _ \<Rightarrow> Inl (TypeMismatch propertyName)))
      else
        (case put_prop doc propertyName v of
           Inl e \<Rightarrow> Inl e
         | Inr doc' \<Rightarrow> fallback_doc doc' rest))"

text \<open>
  The whole map: the first rejection made, and the mapped array unless an exception
  ended the map.
\<close>

fun fallback_map :: "fields \<Rightarrow> jsval list \<Rightarrow> error option \<times> jsval list option" where
  "fallback_map u [] = (None, Some [])"
| "fallback_map u (doc # rest) =
     (case fallback_doc doc u of
        Inl e \<Rightarrow>
          (if e = TypeError then (None, None)
           else (Some e, map_option ((#) JUndefined) (snd (fallback_map u rest))))
      | Inr doc' \<Rightarrow>
          (case fallback_map u rest of
             (rej, rest') \<Rightarrow> (rej, map_option ((#) doc') rest')))"

definition counts :: "nat \<Rightarrow> nat \<Rightarrow> nat \<Rightarrow> jsval" where
  "counts matched modified upserted =
     JObj [(''nMatched'', JNum (int matched)), (''nModified'', JNum (int modified)),
           (''nUpserted'', JNum (int upserted))]"

definition reject_with :: "outcome option \<Rightarrow> error option \<Rightarrow> outcome option" where
  "reject_with s err = (case err of None \<Rightarrow> s | Some e \<Rightarrow> settle s (Rejected e))"

text \<open>
  \<^verbatim>\<open>afterWriteFile\<close>, the same in every operation: unlock, then reject with the error or
  resolve with the value.
\<close>

definition afterWriteFile ::
  "outcome option \<Rightarrow> jsval \<Rightarrow> error option \<times> world \<Rightarrow> outcome option \<times> world" where
  "afterWriteFile s v r =
     (case r of
        (err, w) \<Rightarrow>
          (settle s (case err of Some e \<Rightarrow> Rejected e | None \<Rightarrow> Resolved v), unlock w))"

text \<open>
  The branch taken when nothing matched and the criteria are not empty (lines 329 to
  341). The insert of the upsert sets \<open>_id\<close> on the update criteria object itself, so the
  value resolved under \<open>retObj\<close> carries it.
\<close>

definition update_noMatch ::
  "env \<Rightarrow> fields option \<Rightarrow> options \<Rightarrow> outcome option \<Rightarrow> world \<Rightarrow> outcome option \<times> world" where
  "update_noMatch env updateCriteria opts s w =
     (if upsert opts then
        (case insert_op env (as_value updateCriteria) (unlock w) of
           (Some (Resolved d), w') \<Rightarrow>
             (settle s (Resolved (if retObj opts then d else counts 0 0 1)), w')
         | (Some (Rejected e), w') \<Rightarrow> (settle s (Rejected e), w')
         | (None, w') \<Rightarrow> (s, w'))
      else
        (settle s (Resolved (if retObj opts then as_value updateCriteria else counts 0 0 0)),
         unlock w))"

definition update_emptyCriteria ::
  "env \<Rightarrow> fields option \<Rightarrow> options \<Rightarrow> outcome option \<Rightarrow> jsval list \<Rightarrow> world
     \<Rightarrow> outcome option \<times> world" where
  "update_emptyCriteria env updateCriteria opts s documents w =
     (case fallback_map (entries updateCriteria) documents of
        (rej, None) \<Rightarrow> (reject_with s rej, w)
      | (rej, Some updatedDocuments) \<Rightarrow>
          afterWriteFile (reject_with s rej)
            (if retObj opts then JArr updatedDocuments
             else counts (length documents) (length documents) 0)
            (set_op env updatedDocuments w))"

text \<open>
  \<^verbatim>\<open>afterReadFile\<close> of \<^verbatim>\<open>update\<close> (lines 252 to 343). The two rejections inside the match
  loop are followed by \<^verbatim>\<open>return\<close>; an exception leaves the callback without settling the
  promise.
\<close>

definition update_afterReadFile ::
  "env \<Rightarrow> criteria \<Rightarrow> fields option \<Rightarrow> options \<Rightarrow> outcome option
     \<Rightarrow> (error + jsval list) \<times> world \<Rightarrow> outcome option \<times> world" where
  "update_afterReadFile env criteria updateCriteria opts s r =
     (case r of
        (Inl e, w) \<Rightarrow> (settle s (Rejected e), unlock w)
      | (Inr documents, w) \<Rightarrow>
          (case update_loop (\<lambda>d. matchCriteria env d criteria) (entries updateCriteria)
                  (multi opts) documents of
             Inl e \<Rightarrow> ((if e = TypeError then s else settle s (Rejected e)), w)
           | Inr (documents', matchedDocuments) \<Rightarrow>
               (if matchedDocuments \<noteq> [] then
                  afterWriteFile s
                    (if retObj opts then JArr matchedDocuments
                     else counts (length matchedDocuments) (length matchedDocuments) 0)
                    (set_op env documents' w)
                else if criteria = None \<or> criteria = Some [] then
                  update_emptyCriteria env updateCriteria opts s documents w
                else update_noMatch env updateCriteria opts s w)))"

definition update_afterLockFile ::
  "env \<Rightarrow> criteria \<Rightarrow> fields option \<Rightarrow> options \<Rightarrow> outcome option
     \<Rightarrow> lock_reply \<times> world \<Rightarrow> outcome option \<times> world" where
  "update_afterLockFile env criteria updateCriteria opts s r =
     (case r of
        (Waiting, w) \<Rightarrow> (s, w)
      | (Called err, w) \<Rightarrow>
          update_afterReadFile env criteria updateCriteria opts (reject_with s err) (get env w))"

text \<open>
  \<^verbatim>\<open>Collection.prototype.update\<close>. Criteria and update criteria are objects or absent
  (\<open>None\<close>), options an object or absent. The two argument checks reject and the function
  goes on to the lock.
\<close>

definition update ::
  "env \<Rightarrow> criteria \<Rightarrow> fields option \<Rightarrow> options option \<Rightarrow> world \<Rightarrow> outcome option \<times> world" where
  "update env criteria updateCriteria opt w =
     (let opts = given_or update_defaults opt;
          s1 = (if criteria = None
                then settle None (Rejected (InvalidArgument ''No criteria specified!''))
                else None);
          s2 = (if updateCriteria = None
                then settle s1 (Rejected (InvalidArgument ''No update criteria specified!''))
                else s1)
      in update_afterLockFile env criteria updateCriteria opts s2 (lock env w))"

section \<open>remove, deleteOne, deleteMany\<close>

definition normalise :: "criteria \<Rightarrow> criteria" where
  "normalise criteria = (if criteria = Some [] then None else criteria)"

definition remove_afterReadFile ::
  "env \<Rightarrow> criteria \<Rightarrow> outcome option \<Rightarrow> (error + jsval list) \<times> world
     \<Rightarrow> outcome option \<times> world" where
  "remove_afterReadFile env criteria s r =
     (case r of
        (Inl e, w) \<Rightarrow> (settle s (Rejected e), unlock w)
      | (Inr documents, w) \<Rightarrow>
          (let filteredDocuments =
                 (if criteria = None \<or> criteria = Some [] then []
                  else filter (\<lambda>document. \<not> matchCriteria env document criteria) documents)
           in afterWriteFile s (JBool True) (set_op env filteredDocuments w)))"

definition remove_afterLockFile ::
  "env \<Rightarrow> criteria \<Rightarrow> outcome option \<Rightarrow> lock_reply \<times> world \<Rightarrow> outcome option \<times> world" where
  "remove_afterLockFile env criteria s r =
     (case r of
        (Waiting, w) \<Rightarrow> (s, w)
      | (Called err, w) \<Rightarrow> remove_afterReadFile env criteria (reject_with s err) (get env w))"

text \<open>
  \<^verbatim>\<open>Collection.prototype.remove\<close>. The options are replaced when a function is passed in
  their place and are not read anywhere else.
\<close>

definition remove ::
  "env \<Rightarrow> criteria \<Rightarrow> options option \<Rightarrow> world \<Rightarrow> outcome option \<times> world" where
  "remove env criteria opt w =
     (let criteria' = normalise criteria;
          s = (if criteria' = None
               then settle None (Rejected (InvalidArgument ''No criteria specified!''))
               else None)
      in remove_afterLockFile env criteria' s (lock env w))"

definition deleteOne :: "env \<Rightarrow> criteria \<Rightarrow> world \<Rightarrow> outcome option \<times> world" where
  "deleteOne env criteria w = remove env criteria (Some (no_options\<lparr>multi := False\<rparr>)) w"

definition deleteMany :: "env \<Rightarrow> criteria \<Rightarrow> world \<Rightarrow> outcome option \<times> world" where
  "deleteMany env criteria w = remove env criteria (Some (no_options\<lparr>multi := True\<rparr>)) w"

section \<open>find, findOne\<close>

text \<open>
  The filter run by \<^verbatim>\<open>async.each\<close>. With \<open>multi\<close> every match is collected. Without it the
  iteratee hands the first match to \<^verbatim>\<open>next\<close>, which ends the iteration with that document
  as its result when the document is truthy; nothing is collected.
\<close>

definition find_afterReadFile ::
  "env \<Rightarrow> criteria \<Rightarrow> options \<Rightarrow> (error + jsval list) \<times> world \<Rightarrow> outcome option \<times> world" where
  "find_afterReadFile env criteria opts r =
     (case r of
        (Inl e, w) \<Rightarrow> (Some (Rejected e), w)
      | (Inr documents, w) \<Rightarrow>
          (if criteria = None then (Some (Resolved (JArr documents)), w)
           else if multi opts then
             (Some (Resolved (JArr (filter (\<lambda>d. matchCriteria env d criteria) documents))), w)
           else
             (case find (\<lambda>d. matchCriteria env d criteria \<and> truthy d) documents of
                Some document \<Rightarrow> (Some (Resolved document), w)
              | None \<Rightarrow> (Some (Resolved (JArr [])), w))))"

definition find_op ::
  "env \<Rightarrow> criteria \<Rightarrow> options option \<Rightarrow> world \<Rightarrow> outcome option \<times> world" where
  "find_op env criteria opt w =
     (let opts = given_or (no_options\<lparr>multi := True\<rparr>) opt
      in find_afterReadFile env (normalise criteria) opts (get env w))"

definition findOne :: "env \<Rightarrow> criteria \<Rightarrow> world \<Rightarrow> outcome option \<times> world" where
  "findOne env criteria w =
     (if normalise criteria = None
      then (Some (Rejected (InvalidArgument ''No criteria specified!'')), w)
      else find_op env (normalise criteria) (Some (no_options\<lparr>multi := False\<rparr>)) w)"

section \<open>findAndModify, updateOne, updateMany\<close>

text \<open>
  The update criteria object as the caller sees it after \<^verbatim>\<open>update\<close>: the insert of the
  upsert path, the only place that draws an identifier, has set \<open>_id\<close> on it.
\<close>

definition updateCriteria_after :: "env \<Rightarrow> fields option \<Rightarrow> world \<Rightarrow> world \<Rightarrow> jsval" where
  "updateCriteria_after env updateCriteria w w' =
     (if issued w' = issued w then as_value updateCriteria
      else with_id (as_value updateCriteria) (generateUUID env (issued w)))"

definition findAndModify ::
  "env \<Rightarrow> criteria \<Rightarrow> fields option \<Rightarrow> options option \<Rightarrow> world \<Rightarrow> outcome option \<times> world" where
  "findAndModify env criteria updateCriteria opt w =
     (let opts = given_or (no_options\<lparr>multi := True, retObj := True\<rparr>) opt;
          criteria' = normalise criteria;
          s1 = (if criteria' = None
                then settle None (Rejected (InvalidArgument ''No criteria specified!''))
                else None);
          s2 = (if updateCriteria = None
                then settle s1 (Rejected (InvalidArgument ''No update criteria specified!''))
                else s1)
      in case update env criteria' updateCriteria (Some opts) w of
           (None, w') \<Rightarrow> (s2, w')
         | (Some (Rejected e), w') \<Rightarrow> (settle s2 (Rejected e), w')
         | (Some (Resolved result), w') \<Rightarrow>
             (settle s2 (Resolved (if retObj opts
                                   then updateCriteria_after env updateCriteria w w'
                                   else result)), w'))"

text \<open>\<^verbatim>\<open>result.nModified > 0\<close>.\<close>

definition modified_some :: "jsval \<Rightarrow> bool" where
  "modified_some result = (case get_prop result ''nModified'' of JNum n \<Rightarrow> 0 < n | _ \<Rightarrow> False)"

definition updateOne ::
  "env \<Rightarrow> criteria \<Rightarrow> fields option \<Rightarrow> options option \<Rightarrow> world \<Rightarrow> outcome option \<times> world" where
  "updateOne env criteria updateCriteria opt w =
     (let opts = (given_or no_options opt)\<lparr>multi := False\<rparr>
      in case update env criteria updateCriteria (Some opts) w of
           (Some (Resolved result), w') \<Rightarrow>
             (if returnNew opts \<and> retObj opts then (Some (Resolved result), w')
              else if returnNew opts \<and> \<not> retObj opts \<and> modified_some result
                then findOne env criteria w'
              else (Some (Resolved result), w'))
         | other \<Rightarrow> other)"

definition updateMany ::
  "env \<Rightarrow> criteria \<Rightarrow> fields option \<Rightarrow> options option \<Rightarrow> world \<Rightarrow> outcome option \<times> world" where
  "updateMany env criteria updateCriteria opt w =
     (let opts = (given_or no_options opt)\<lparr>multi := True\<rparr>
      in case update env criteria updateCriteria (Some opts) w of
           (Some (Resolved result), w') \<Rightarrow>
             (if returnNew opts \<and> retObj opts then (Some (Resolved result), w')
              else if returnNew opts \<and> \<not> retObj opts \<and> modified_some result
                then find_op env criteria None w'
              else (Some (Resolved result), w'))
         | other \<Rightarrow> other)"

section \<open>distinct\<close>

text \<open>
  \<^verbatim>\<open>===\<close> on parsed JSON: primitives are compared by value; two objects or arrays read
  from the store are never the same object.
\<close>

fun strict_eq :: "jsval \<Rightarrow> jsval \<Rightarrow> bool" where
  "strict_eq (JArr xs) b = False"
| "strict_eq (JObj kvs) b = False"
| "strict_eq a b = (a = b)"

text \<open>\<^verbatim>\<open>_.uniq\<close>: a value is kept unless the result already contains it (by \<^verbatim>\<open>===\<close>).\<close>

fun uniq_into :: "jsval list \<Rightarrow> jsval list \<Rightarrow> jsval list" where
  "uniq_into result [] = result"
| "uniq_into result (v # vs) =
     uniq_into (if list_ex (\<lambda>r. strict_eq r v) result then result else result @ [v]) vs"

definition uniq :: "jsval list \<Rightarrow> jsval list" where
  "uniq vs = uniq_into [] vs"

text \<open>\<^verbatim>\<open>_.compact\<close>: the truthy values.\<close>

definition compact :: "jsval list \<Rightarrow> jsval list" where
  "compact vs = filter truthy vs"

text \<open>
  The names every object inherits from \<^verbatim>\<open>Object.prototype\<close>. Their values are functions
  and objects of the runtime, not JSON values.
\<close>

definition inherited_names :: "string list" where
  "inherited_names =
     [''constructor'', ''hasOwnProperty'', ''isPrototypeOf'', ''propertyIsEnumerable'',
      ''toLocaleString'', ''toString'', ''valueOf'', ''__proto__'', ''__defineGetter__'',
      ''__defineSetter__'', ''__lookupGetter__'', ''__lookupSetter__'']"

text \<open>
  \<^verbatim>\<open>document[field]\<close> as line 485 reads it from an element that is not \<^verbatim>\<open>null\<close>. For an
  object it is the own property, and \<^verbatim>\<open>undefined\<close> for a name the object neither has nor
  inherits. The other readings are outside the model (\<open>None\<close>): an inherited name that
  the object does not have itself, and any property of a string, a number, a boolean
  or an array, which have \<^verbatim>\<open>length\<close>, indices and methods of their own kind.
\<close>

fun field_value :: "string \<Rightarrow> jsval \<Rightarrow> jsval option" where
  "field_value field (JObj kvs) =
     (if field \<in> set inherited_names \<and> field \<notin> fst ` set kvs then None
      else Some (lookup kvs field))"
| "field_value field v = None"

definition distinctValues :: "jsval list \<Rightarrow> jsval list" where
  "distinctValues vs = compact (uniq vs)"

text \<open>
  \<^verbatim>\<open>Collection.prototype.distinct\<close>. A field that is not a non-empty string is rejected
  and the read is made all the same. Reading the field of a \<^verbatim>\<open>null\<close> element raises in
  the callback and the promise stays pending. The result is \<open>None\<close> where the values read
  are outside the model.
\<close>

definition distinct_afterReadFile ::
  "string \<Rightarrow> outcome option \<Rightarrow> (error + jsval list) \<times> world
     \<Rightarrow> (outcome option \<times> world) option" where
  "distinct_afterReadFile field s r =
     (case r of
        (Inl e, w) \<Rightarrow> Some (settle s (Rejected e), w)
      | (Inr documents, w) \<Rightarrow>
          (if list_ex nullish documents then Some (s, w)
           else
             (case those (map (field_value field) documents) of
                None \<Rightarrow> None
              | Some vs \<Rightarrow>
                  Some (settle s (Resolved (JArr (distinctValues vs))), w))))"

definition distinct_op :: "env \<Rightarrow> jsval \<Rightarrow> world \<Rightarrow> (outcome option \<times> world) option" where
  "distinct_op env field w =
     (case field of
        JStr name \<Rightarrow>
          (if name = []
           then Some (Some (Rejected (InvalidArgument ''Field should be a non-empty string!'')),
                      snd (get env w))
           else distinct_afterReadFile name None (get env w))
      | _ \<Rightarrow>
          Some (Some (Rejected (InvalidArgument ''Field should be a non-empty string!'')),
                snd (get env w)))"

section \<open>Calls in flight together\<close>

text \<open>
  A call runs as a chain of callbacks, and between two callbacks of one call the
  callbacks of other pending calls may run; a call that asks for the lock goes on when
  the lock is free. An \<^verbatim>\<open>update\<close> with \<open>upsert\<close> that matches nothing releases the lock
  (line 330) and then calls \<^verbatim>\<open>insert\<close> (line 332), which sets \<open>_id\<close> on the update criteria
  object and asks for the lock again. \<open>update_released\<close> is the run of \<^verbatim>\<open>update\<close> up to that
  request: the state of its promise, the object to be inserted and the world in which
  the request is made. It is \<open>None\<close> when the run does not come to line 332 with an object
  to insert.
\<close>

definition update_released ::
  "env \<Rightarrow> criteria \<Rightarrow> fields option \<Rightarrow> options option \<Rightarrow> world
     \<Rightarrow> (outcome option \<times> jsval \<times> world) option" where
  "update_released env criteria updateCriteria opt w =
     (let opts = given_or update_defaults opt;
          s1 = (if criteria = None
                then settle None (Rejected (InvalidArgument ''No criteria specified!''))
                else None);
          s2 = (if updateCriteria = None
                then settle s1 (Rejected (InvalidArgument ''No update criteria specified!''))
                else s1)
      in case lock env w of
           (Waiting, w1) \<Rightarrow> None
         | (Called err, w1) \<Rightarrow>
             (case get env w1 of
                (Inl e, w2) \<Rightarrow> None
              | (Inr documents, w2) \<Rightarrow>
                  (case update_loop (\<lambda>d. matchCriteria env d criteria) (entries updateCriteria)
                          (multi opts) documents of
                     Inl e \<Rightarrow> None
                   | Inr (documents', matchedDocuments) \<Rightarrow>
                       (if matchedDocuments \<noteq> [] then None
                        else if criteria = None \<or> criteria = Some [] then None
                        else if upsert opts then
                          (case updateCriteria of
                             None \<Rightarrow> None
                           | Some u \<Rightarrow>
                               Some (reject_with s2 err,
                                     with_id (JObj u) (generateUUID env (issued (unlock w2))),
                                     (unlock w2)\<lparr>issued := Suc (issued (unlock w2))\<rparr>))
                        else None))))"

text \<open>
  \<^verbatim>\<open>insert\<close> from the grant of its lock on, and what \<^verbatim>\<open>update\<close> does when the promise of
  that \<^verbatim>\<open>insert\<close> settles (lines 333 to 337).
\<close>

definition insert_locked :: "env \<Rightarrow> jsval \<Rightarrow> world \<Rightarrow> outcome option \<times> world" where
  "insert_locked env data w = insert_afterLockFile env data None (lock env w)"

definition update_afterInsert ::
  "options \<Rightarrow> outcome option \<Rightarrow> outcome option \<times> world \<Rightarrow> outcome option \<times> world" where
  "update_afterInsert opts s r =
     (case r of
        (Some (Resolved d), w) \<Rightarrow>
          (settle s (Resolved (if retObj opts then d else counts 0 0 1)), w)
      | (Some (Rejected e), w) \<Rightarrow> (settle s (Rejected e), w)
      | (None, w) \<Rightarrow> (s, w))"

text \<open>
  Two upserts \<open>A\<close> and \<open>B\<close> issued together, each given as criteria and update criteria,
  with the order in which the lock is granted: to \<open>A\<close> for its read, to \<open>B\<close> for its read
  once \<open>A\<close> has released it, then to the \<^verbatim>\<open>insert\<close> of \<open>A\<close> and to the \<^verbatim>\<open>insert\<close> of \<open>B\<close>. The
  result is the two promises and the world at the end; \<open>None\<close> when one of the calls is
  not an upsert that comes to its \<^verbatim>\<open>insert\<close>.
\<close>

definition upserts_interleaved ::
  "env \<Rightarrow> options option \<Rightarrow> fields \<times> fields \<Rightarrow> fields \<times> fields \<Rightarrow> world
     \<Rightarrow> (outcome option \<times> outcome option \<times> world) option" where
  "upserts_interleaved env opt A B w =
     (case update_released env (Some (fst A)) (Some (snd A)) opt w of
        None \<Rightarrow> None
      | Some (sA, dataA, w1) \<Rightarrow>
          (case update_released env (Some (fst B)) (Some (snd B)) opt w1 of
             None \<Rightarrow> None
           | Some (sB, dataB, w2) \<Rightarrow>
               (case update_afterInsert (given_or update_defaults opt) sA
                       (insert_locked env dataA w2) of
                  (resultA, w3) \<Rightarrow>
                    (case update_afterInsert (given_or update_defaults opt) sB
                            (insert_locked env dataB w3) of
                       (resultB, w4) \<Rightarrow> Some (resultA, resultB, w4)))))"

text \<open>The same two calls one after the other.\<close>

definition upserts_serial ::
  "env \<Rightarrow> options option \<Rightarrow> fields \<times> fields \<Rightarrow> fields \<times> fields \<Rightarrow> world \<Rightarrow> world" where
  "upserts_serial env opt A B w =
     snd (update env (Some (fst B)) (Some (snd B)) opt
            (snd (update env (Some (fst A)) (Some (snd A)) opt w)))"

section \<open>The predicates of the specification\<close>

text \<open>
  An entry of the update criteria is an operator object when its value is an object
  (\<^verbatim>\<open>instanceof Object\<close>). \<open>inc_mismatch\<close>: it contains \<^verbatim>\<open>$inc\<close> and the document's current
  field value or the operand is not a number. \<open>unsupported\<close>: it does not contain \<^verbatim>\<open>$inc\<close>.
  \<open>targets\<close> are the documents the update is applied to: every match, or the first one
  when \<open>multi\<close> is not set.
\<close>

definition inc_mismatch :: "jsval \<Rightarrow> string \<times> jsval \<Rightarrow> bool" where
  "inc_mismatch document e =
     (instanceof_Object (snd e) \<and> has_key ''$inc'' (snd e) \<and>
      \<not> (is_number (get_prop document (fst e)) \<and> is_number (get_prop (snd e) ''$inc'')))"

definition unsupported :: "string \<times> jsval \<Rightarrow> bool" where
  "unsupported e = (instanceof_Object (snd e) \<and> \<not> has_key ''$inc'' (snd e))"

definition offending :: "jsval \<Rightarrow> string \<times> jsval \<Rightarrow> bool" where
  "offending document e = (unsupported e \<or> inc_mismatch document e)"

definition error_of :: "string \<times> jsval \<Rightarrow> error" where
  "error_of e = (if unsupported e then UnsupportedOperator (snd e) else TypeMismatch (fst e))"

definition targets :: "(jsval \<Rightarrow> bool) \<Rightarrow> bool \<Rightarrow> jsval list \<Rightarrow> jsval list" where
  "targets m mul documents = (if mul then filter m documents else take 1 (filter m documents))"

fun isObject :: "jsval \<Rightarrow> bool" where
  "isObject (JObj kvs) = True"
| "isObject v = False"

text \<open>
  The identifier of a stored document, and the statement that the documents stored before
  an operation are still in their places afterwards, each with the identifier it had.
\<close>

definition id_of :: "jsval \<Rightarrow> jsval" where
  "id_of document = get_prop document ''_id''"

definition ids_kept :: "jsval list \<Rightarrow> jsval list \<Rightarrow> bool" where
  "ids_kept before after = (map id_of (take (length before) after) = map id_of before)"

section \<open>The memory driver and its flush to disk\<close>

text \<open>
  \<^verbatim>\<open>Memory\<close> of \<^verbatim>\<open>src/unnamed/part_000\<close>. The object has the flush period, the file and
  \<^verbatim>\<open>memoryTable\<close>, a \<^verbatim>\<open>Set\<close> kept here in insertion order. \<open>interval\<close> is the timer installed
  by \<^verbatim>\<open>setInterval\<close>, with its period; nothing in the source clears it. The calls made to
  \<^verbatim>\<open>util.fileSystem\<close> are recorded in \<open>fs_calls\<close>, \<open>file_locked\<close> says whether the file lock
  is held and \<open>flushed\<close> is what the last successful write stored.
\<close>

datatype fs_call = FsRead | FsLock | FsWrite "jsval list" | FsUnlock

record memory =
  flush :: nat
  flushFile :: string
  memoryTable :: "jsval list"
  interval :: "nat option"
  fs_calls :: "fs_call list"
  file_locked :: bool
  flushed :: "jsval list option"

text \<open>\<^verbatim>\<open>Set.prototype.add\<close>: a value already in the set (by identity) is not added again.\<close>

definition set_add :: "jsval list \<Rightarrow> jsval \<Rightarrow> jsval list" where
  "set_add table v = (if list_ex (\<lambda>r. strict_eq r v) table then table else table @ [v])"

text \<open>
  The constructor with the callback of the initial read. An exception thrown from a
  callback is given as the value the callback hands to the runtime that invoked it.
  \<open>readResult\<close> is what \<^verbatim>\<open>util.fileSystem.read\<close> passes to the callback.
\<close>

definition Memory :: "nat \<Rightarrow> string \<Rightarrow> error + jsval \<Rightarrow> error option \<times> memory" where
  "Memory flushOption file readResult =
     (let self = \<lparr>flush = (if flushOption = 0 then 10000 else flushOption), flushFile = file,
                   memoryTable = [], interval = None, fs_calls = [FsRead],
                   file_locked = False, flushed = None\<rparr>
      in case readResult of
           Inl err \<Rightarrow> (Some err, self)
         | Inr content \<Rightarrow>
             (None, self\<lparr>memoryTable := set_add (memoryTable self) content,
                          interval := Some (flush self)\<rparr>))"

text \<open>
  \<^verbatim>\<open>flushToDisk\<close>, the function the interval runs: lock, write the table, unlock. After a
  failed lock it throws at once; after a failed write it unlocks and throws.
\<close>

definition flushToDisk :: "bool \<Rightarrow> bool \<Rightarrow> memory \<Rightarrow> error option \<times> memory" where
  "flushToDisk lockFails writeFails self =
     (let locking = self\<lparr>fs_calls := fs_calls self @ [FsLock]\<rparr>
      in if lockFails then (Some LockError, locking)
         else
           (let writing = locking\<lparr>file_locked := True,
                                   fs_calls := fs_calls locking @ [FsWrite (memoryTable self)]\<rparr>;
                unlocked = (\<lambda>m. m\<lparr>file_locked := False, fs_calls := fs_calls m @ [FsUnlock]\<rparr>)
            in if writeFails then (Some IOError, unlocked writing)
               else (None, unlocked (writing\<lparr>flushed := Some (memoryTable self)\<rparr>))))"

text \<open>A tick of the timer: the installed interval runs \<^verbatim>\<open>flushToDisk\<close>.\<close>

definition tick :: "bool \<Rightarrow> bool \<Rightarrow> memory \<Rightarrow> error option \<times> memory" where
  "tick lockFails writeFails self =
     (case interval self of None \<Rightarrow> (None, self) | Some period \<Rightarrow> flushToDisk lockFails writeFails self)"

text \<open>\<^verbatim>\<open>Memory.prototype.set\<close>: the content is added to the table.\<close>

definition memory_set :: "jsval \<Rightarrow> memory \<Rightarrow> memory" where
  "memory_set content self = self\<lparr>memoryTable := set_add (memoryTable self) content\<rparr>"

text \<open>The table after any number of \<^verbatim>\<open>set\<close> calls.\<close>

definition after_sets :: "jsval list \<Rightarrow> memory \<Rightarrow> memory" where
  "after_sets contents self = foldl (\<lambda>m content. memory_set content m) self contents"

text \<open>
  The driver catches none of the exceptions it throws and no file of the repository
  installs a handler for uncaught exceptions. What becomes of an exception that leaves a
  callback is then decided by the runtime: Node.js ends the process. \<open>start\<close> and
  \<open>on_tick\<close> are the constructor and the tick in such a process.
\<close>

datatype process = Running memory | Exited error

definition uncaught :: "error option \<times> memory \<Rightarrow> process" where
  "uncaught r = (case r of (Some err, self) \<Rightarrow> Exited err | (None, self) \<Rightarrow> Running self)"

definition start :: "nat \<Rightarrow> string \<Rightarrow> error + jsval \<Rightarrow> process" where
  "start flushOption file readResult = uncaught (Memory flushOption file readResult)"

definition on_tick :: "bool \<Rightarrow> bool \<Rightarrow> process \<Rightarrow> process" where
  "on_tick lockFails writeFails p =
     (case p of
        Exited err \<Rightarrow> Exited err
      | Running self \<Rightarrow> uncaught (tick lockFails writeFails self))"

section \<open>A concrete environment\<close>

text \<open>
  For evaluating the engine on concrete inputs: a backend that never fails, a generator
  that never repeats an identifier, and a matcher that compares every field named in the
  criteria with the document's field.
\<close>

definition fieldsMatch :: "jsval \<Rightarrow> criteria \<Rightarrow> bool" where
  "fieldsMatch d c =
     (case c of None \<Rightarrow> True | Some kvs \<Rightarrow> list_all (\<lambda>(k, v). get_prop d k = v) kvs)"

definition uuid :: "nat \<Rightarrow> string" where
  "uuid n = ''id'' @ replicate n (CHR ''+'')"

definition quiet :: env where
  "quiet = \<lparr>lock_fails = (\<lambda>n. False), get_fails = (\<lambda>n. False), set_fails = (\<lambda>n. False),
            generateUUID = uuid, matchCriteria = fieldsMatch\<rparr>"

definition fresh :: "jsval list \<Rightarrow> world" where
  "fresh docs = \<lparr>store = docs, held = False, trace = [], issued = 0\<rparr>"

text \<open>A stored document whose field \<open>n\<close> holds a string.\<close>

definition sample :: jsval where
  "sample = JObj [(''name'', JStr ''a''), (''n'', JStr ''x'')]"

text \<open>A stored document that has its identifier.\<close>

definition stored :: jsval where
  "stored = JObj [(''name'', JStr ''a''), (''_id'', JStr ''1'')]"

text \<open>A collection whose \<open>tag\<close> values include falsy ones, \<^verbatim>\<open>null\<close> and an absent field.\<close>

definition tagged :: "jsval list" where
  "tagged = [JObj [(''tag'', JStr ''a'')], JObj [(''tag'', JNum 0)], JObj [(''tag'', JStr ''a'')],
             JObj [(''tag'', JBool False)], JObj [(''tag'', JStr '''')], JObj [(''tag'', JNull)],
             JObj [(''other'', JNum 1)], JObj [(''tag'', JStr ''b'')]]"

text \<open>Two documents whose \<open>tag\<close> values are arrays with the same content.\<close>

definition listed :: "jsval list" where
  "listed = [JObj [(''tag'', JArr [JStr ''x''])], JObj [(''tag'', JArr [JStr ''x''])]]"

section \<open>Properties\<close>

lemmas backend_defs = lock_def unlock_def get_def set_op_def log_def settle_def reject_with_def
  afterWriteFile_def quiet_def fresh_def fieldsMatch_def uuid_def lookup_def entries_def
  as_value_def given_or_def Let_def

lemmas insert_defs = insert_op_def insert_afterLockFile_def insert_afterReadFile_def

lemmas update_defs = update_def update_afterLockFile_def update_afterReadFile_def
  update_noMatch_def update_emptyCriteria_def update_defaults_def counts_def

lemmas remove_defs = remove_def remove_afterLockFile_def remove_afterReadFile_def normalise_def
  deleteOne_def deleteMany_def no_options_def

subsection \<open>Operator entries of an update\<close>

lemma lookup_assign_other: "k \<noteq> p \<Longrightarrow> lookup (assign kvs p v) k = lookup kvs k"
  by (induction kvs) (auto simp: lookup_def)

lemma offending_assign:
  "fst e \<noteq> p \<Longrightarrow> offending (JObj (assign kvs p v)) e = offending (JObj kvs) e"
  by (simp add: offending_def inc_mismatch_def lookup_assign_other)

lemma offending_assign_mem:
  "p \<notin> fst ` set u \<Longrightarrow> e \<in> set u
     \<Longrightarrow> offending (JObj (assign kvs p v)) e = offending (JObj kvs) e"
proof -
  assume "p \<notin> fst ` set u" and "e \<in> set u"
  then have "fst e \<noteq> p" by force
  then show ?thesis by (rule offending_assign)
qed

lemma is_number_cases: "is_number v \<Longrightarrow> \<exists>n. v = JNum n"
  by (cases v) auto

lemma apply_update_clean:
  "distinct (map fst u) \<Longrightarrow> \<not> list_ex (offending (JObj kvs)) u
     \<Longrightarrow> \<exists>kvs'. apply_update (JObj kvs) u = Inr (JObj kvs')"
proof (induction u arbitrary: kvs)
  case Nil
  then show ?case by simp
next
  case (Cons e u)
  obtain p v where e: "e = (p, v)" by (cases e)
  from Cons.prems have d: "distinct (map fst u)" and pn: "p \<notin> fst ` set u"
    and ok: "\<not> offending (JObj kvs) (p, v)" and rest: "\<not> list_ex (offending (JObj kvs)) u"
    by (auto simp: e)
  have rest': "\<not> list_ex (offending (JObj (assign kvs p x))) u" for x
    using rest pn by (simp add: list_ex_iff offending_assign_mem)
  show ?case
  proof (cases "instanceof_Object v")
    case False
    then show ?thesis using Cons.IH [OF d rest'] by (simp add: e)
  next
    case True
    with ok have k: "has_key ''$inc'' v" and n1: "is_number (lookup kvs p)"
      and n2: "is_number (get_prop v ''$inc'')"
      by (auto simp: offending_def unsupported_def inc_mismatch_def)
    from n1 n2 obtain a b where "lookup kvs p = JNum a" "get_prop v ''$inc'' = JNum b"
      by (auto dest!: is_number_cases)
    then show ?thesis using True k Cons.IH [OF d rest'] by (simp add: e)
  qed
qed

lemma apply_update_first_offending:
  "distinct (map fst u) \<Longrightarrow> find (offending (JObj kvs)) u = Some e
     \<Longrightarrow> apply_update (JObj kvs) u = Inl (error_of e)"
proof (induction u arbitrary: kvs)
  case Nil
  then show ?case by simp
next
  case (Cons x u)
  obtain p v where x: "x = (p, v)" by (cases x)
  from Cons.prems have d: "distinct (map fst u)" and pn: "p \<notin> fst ` set u" by (auto simp: x)
  show ?case
  proof (cases "offending (JObj kvs) (p, v)")
    case True
    with Cons.prems have ex: "e = (p, v)" by (simp add: x)
    show ?thesis
    proof (cases "unsupported (p, v)")
      case True
      then show ?thesis by (simp add: x ex error_of_def unsupported_def)
    next
      case False
      with \<open>offending (JObj kvs) (p, v)\<close> have m: "inc_mismatch (JObj kvs) (p, v)"
        by (simp add: offending_def)
      then have io: "instanceof_Object v" and k: "has_key ''$inc'' v"
        and nn: "\<not> (is_number (lookup kvs p) \<and> is_number (get_prop v ''$inc''))"
        by (auto simp: inc_mismatch_def)
      from nn have "(case (lookup kvs p, get_prop v ''$inc'') of
                 (JNum a, JNum b) \<Rightarrow> X a b | _ \<Rightarrow> Inl (TypeMismatch p)) = Inl (TypeMismatch p)" for X :: "int \<Rightarrow> int \<Rightarrow> error + jsval"
        by (cases "lookup kvs p"; cases "get_prop v ''$inc''") auto
      then show ?thesis using io k False by (simp add: x ex error_of_def)
    qed
  next
    case False
    with Cons.prems have f: "find (offending (JObj kvs)) u = Some e" by (simp add: x)
    have same: "find (offending (JObj (assign kvs p y))) u = find (offending (JObj kvs)) u" for y
      using pn by (intro find_cong) (simp_all add: offending_assign_mem)
    have IH: "apply_update (JObj (assign kvs p y)) u = Inl (error_of e)" for y
      using Cons.IH [OF d] same f by simp
    show ?thesis
    proof (cases "instanceof_Object v")
      case False
      then show ?thesis using IH by (simp add: x)
    next
      case True
      with \<open>\<not> offending (JObj kvs) (p, v)\<close> have k: "has_key ''$inc'' v" and n1: "is_number (lookup kvs p)"
        and n2: "is_number (get_prop v ''$inc'')"
        by (auto simp: offending_def unsupported_def inc_mismatch_def)
      from n1 n2 obtain a b where "lookup kvs p = JNum a" "get_prop v ''$inc'' = JNum b"
        by (auto dest!: is_number_cases)
      then show ?thesis using True k IH by (simp add: x)
    qed
  qed
qed

lemma update_loop_first_offending:
  "list_all isObject documents \<Longrightarrow> distinct (map fst u)
   \<Longrightarrow> find (\<lambda>d. list_ex (offending d) u) (targets m mul documents) = Some d
   \<Longrightarrow> find (offending d) u = Some e
   \<Longrightarrow> update_loop m u mul documents = Inl (error_of e)"
proof (induction documents)
  case Nil
  then show ?case by (simp add: targets_def split: if_splits)
next
  case (Cons doc rest)
  from Cons.prems(1) obtain kvs where doc: "doc = JObj kvs" and objs: "list_all isObject rest"
    by (cases doc) auto
  show ?case
  proof (cases "m doc")
    case False
    then have "targets m mul (doc # rest) = targets m mul rest" by (simp add: targets_def)
    with Cons have "update_loop m u mul rest = Inl (error_of e)" by simp
    then show ?thesis using False by simp
  next
    case True
    show ?thesis
    proof (cases "list_ex (offending doc) u")
      case off: True
      have "find (\<lambda>d. list_ex (offending d) u) (targets m mul (doc # rest)) = Some doc"
        using True off by (simp add: targets_def)
      with Cons.prems(3) have "d = doc" by simp
      with Cons.prems(4) have "apply_update doc u = Inl (error_of e)"
        using apply_update_first_offending [OF Cons.prems(2)] by (simp add: doc)
      then show ?thesis using True by simp
    next
      case clean: False
      then obtain kvs' where ap: "apply_update doc u = Inr (JObj kvs')"
        using apply_update_clean [OF Cons.prems(2)] doc by blast
      have mul: "mul"
      proof (rule ccontr)
        assume "\<not> mul"
        then have "targets m mul (doc # rest) = [doc]" using True by (simp add: targets_def)
        with Cons.prems(3) clean show False by simp
      qed
      then have "find (\<lambda>d. list_ex (offending d) u) (targets m mul rest) = Some d"
        using Cons.prems(3) True clean by (simp add: targets_def)
      with Cons.IH objs Cons.prems(2,4) have "update_loop m u mul rest = Inl (error_of e)" by simp
      then show ?thesis using True ap mul by simp
    qed
  qed
qed


lemma error_of_not_thrown: "error_of e \<noteq> TypeError"
  by (simp add: error_of_def)

lemma update_aborted:
  assumes free: "\<not> held w"
      and lk: "\<not> lock_fails env (length (trace w))"
      and rd: "\<not> get_fails env (Suc (length (trace w)))"
      and loop: "update_loop (\<lambda>x. matchCriteria env x (Some c)) u (multi (given_or update_defaults opt))
                   (store w) = Inl err"
      and nt: "err \<noteq> TypeError"
  shows "update env (Some c) (Some u) opt w =
           (Some (Rejected err), w\<lparr>held := True, trace := trace w @ [EvLock, EvGet]\<rparr>)"
  using assms
  by (simp add: update_def update_afterLockFile_def update_afterReadFile_def lock_def get_def
        log_def settle_def reject_with_def entries_def Let_def)

text \<open>
  Claim C3, as amended. Let \<^verbatim>\<open>update\<close> be called with criteria and an update object on a
  collection of objects, the lock free and the lock and the read succeeding. If some
  document the update is applied to (a match, and only the first match when \<open>multi\<close> is
  off) has an operator entry that is a \<^verbatim>\<open>$inc\<close> with a non-numeric current value or operand,
  or an operator object without \<^verbatim>\<open>$inc\<close>, then the operation is rejected with the error of
  the first such entry met (documents in stored order, entries in property order):
  \<open>TypeMismatch\<close> for the \<^verbatim>\<open>$inc\<close>, \<open>UnsupportedOperator\<close> for the other. No write is made and
  the stored collection is the one before the call. In particular the error is
  \<open>TypeMismatch\<close> when the update object has no operator without \<^verbatim>\<open>$inc\<close>, and
  \<open>UnsupportedOperator\<close> when it has no \<^verbatim>\<open>$inc\<close>.
\<close>

theorem update_operator_errors:
  assumes free: "\<not> held w"
      and lk: "\<not> lock_fails env (length (trace w))"
      and rd: "\<not> get_fails env (Suc (length (trace w)))"
      and objs: "list_all isObject (store w)"
      and dist: "distinct (map fst u)"
      and tgt: "d \<in> set (targets (\<lambda>x. matchCriteria env x (Some c))
                          (multi (given_or update_defaults opt)) (store w))"
      and ent: "e \<in> set u"
      and off: "offending d e"
  shows "\<exists>d0 e0.
           find (\<lambda>x. list_ex (offending x) u)
             (targets (\<lambda>x. matchCriteria env x (Some c))
                (multi (given_or update_defaults opt)) (store w)) = Some d0 \<and>
           find (offending d0) u = Some e0 \<and>
           update env (Some c) (Some u) opt w =
             (Some (Rejected (if unsupported e0 then UnsupportedOperator (snd e0)
                              else TypeMismatch (fst e0))),
              w\<lparr>held := True, trace := trace w @ [EvLock, EvGet]\<rparr>) \<and>
           store (snd (update env (Some c) (Some u) opt w)) = store w \<and>
           (\<not> list_ex unsupported u \<longrightarrow>
              fst (update env (Some c) (Some u) opt w) = Some (Rejected (TypeMismatch (fst e0)))) \<and>
           (\<not> list_ex (\<lambda>x. has_key ''$inc'' (snd x)) u \<longrightarrow>
              fst (update env (Some c) (Some u) opt w) =
                Some (Rejected (UnsupportedOperator (snd e0))))"
proof -
  let ?T = "targets (\<lambda>x. matchCriteria env x (Some c)) (multi (given_or update_defaults opt)) (store w)"
  from tgt ent off have "\<exists>x \<in> set ?T. list_ex (offending x) u"
    by (auto simp: list_ex_iff)
  then obtain d0 where d0: "find (\<lambda>x. list_ex (offending x) u) ?T = Some d0"
    by (cases "find (\<lambda>x. list_ex (offending x) u) ?T") (auto simp: find_None_iff)
  then have "list_ex (offending d0) u" by (auto dest: find_Some_iff [THEN iffD1])
  then obtain e0 where e0: "find (offending d0) u = Some e0"
    by (cases "find (offending d0) u") (auto simp: find_None_iff list_ex_iff)
  then have mem: "e0 \<in> set u" and offe: "offending d0 e0"
    by (auto simp: find_Some_iff)
  have loop: "update_loop (\<lambda>x. matchCriteria env x (Some c)) u
                (multi (given_or update_defaults opt)) (store w) = Inl (error_of e0)"
    by (rule update_loop_first_offending [OF objs dist d0 e0])
  have upd: "update env (Some c) (Some u) opt w =
           (Some (Rejected (error_of e0)), w\<lparr>held := True, trace := trace w @ [EvLock, EvGet]\<rparr>)"
    by (rule update_aborted [OF free lk rd loop error_of_not_thrown])
  have a: "\<not> list_ex unsupported u \<Longrightarrow> error_of e0 = TypeMismatch (fst e0)"
    using mem by (auto simp: error_of_def list_ex_iff)
  have b: "\<not> list_ex (\<lambda>x. has_key ''$inc'' (snd x)) u \<Longrightarrow> error_of e0 = UnsupportedOperator (snd e0)"
    using mem offe by (auto simp: error_of_def list_ex_iff offending_def inc_mismatch_def)
  have c1: "store (snd (update env (Some c) (Some u) opt w)) = store w"
    by (simp add: upd)
  have c2: "\<not> list_ex unsupported u \<longrightarrow>
              fst (update env (Some c) (Some u) opt w) = Some (Rejected (TypeMismatch (fst e0)))"
    using a by (simp add: upd)
  have c3: "\<not> list_ex (\<lambda>x. has_key ''$inc'' (snd x)) u \<longrightarrow>
              fst (update env (Some c) (Some u) opt w) =
                Some (Rejected (UnsupportedOperator (snd e0)))"
    using b by (simp add: upd)
  from d0 e0 upd [unfolded error_of_def] c1 c2 c3 show ?thesis by blast
qed

theorem update_operator_errors_witness:
  "\<not> held (fresh [sample]) \<and>
   \<not> lock_fails quiet (length (trace (fresh [sample]))) \<and>
   \<not> get_fails quiet (Suc (length (trace (fresh [sample])))) \<and>
   list_all isObject (store (fresh [sample])) \<and>
   distinct (map fst [(''n'', JObj [(''$inc'', JNum 1)])]) \<and>
   sample \<in> set (targets (\<lambda>x. matchCriteria quiet x (Some [(''name'', JStr ''a'')]))
                    (multi (given_or update_defaults None)) (store (fresh [sample]))) \<and>
   (''n'', JObj [(''$inc'', JNum 1)]) \<in> set [(''n'', JObj [(''$inc'', JNum 1)])] \<and>
   offending sample (''n'', JObj [(''$inc'', JNum 1)]) \<and>
   fst (update quiet (Some [(''name'', JStr ''a'')]) (Some [(''n'', JObj [(''$inc'', JNum 1)])])
          None (fresh [sample])) = Some (Rejected (TypeMismatch ''n'')) \<and>
   store (snd (update quiet (Some [(''name'', JStr ''a'')])
                 (Some [(''n'', JObj [(''$inc'', JNum 1)])]) None (fresh [sample]))) = [sample]"
proof -
  let ?u = "[(''n'', JObj [(''$inc'', JNum 1)])]"
  have h1: "\<not> held (fresh [sample])" by (simp add: fresh_def)
  have h2: "\<not> lock_fails quiet (length (trace (fresh [sample])))" by (simp add: quiet_def)
  have h3: "\<not> get_fails quiet (Suc (length (trace (fresh [sample]))))" by (simp add: quiet_def)
  have h4: "list_all isObject (store (fresh [sample]))" by (simp add: fresh_def sample_def)
  have h5: "distinct (map fst ?u)" by simp
  have h6: "sample \<in> set (targets (\<lambda>x. matchCriteria quiet x (Some [(''name'', JStr ''a'')]))
                    (multi (given_or update_defaults None)) (store (fresh [sample])))"
    by (simp add: targets_def given_or_def update_defaults_def fresh_def quiet_def
          fieldsMatch_def sample_def lookup_def)
  have h7: "(''n'', JObj [(''$inc'', JNum 1)]) \<in> set ?u" by simp
  have h8: "offending sample (''n'', JObj [(''$inc'', JNum 1)])"
    by (simp add: offending_def inc_mismatch_def sample_def lookup_def)
  have nu: "\<not> list_ex unsupported ?u" by (simp add: unsupported_def)
  from update_operator_errors [OF h1 h2 h3 h4 h5 h6 h7 h8] nu
  obtain d0 e0 where e0: "find (offending d0) ?u = Some e0"
    and r: "fst (update quiet (Some [(''name'', JStr ''a'')]) (Some ?u) None (fresh [sample]))
              = Some (Rejected (TypeMismatch (fst e0)))"
    and st: "store (snd (update quiet (Some [(''name'', JStr ''a'')]) (Some ?u) None
                    (fresh [sample]))) = store (fresh [sample])"
    by blast
  from e0 have "fst e0 = ''n''" by (auto split: if_splits)
  with r st h1 h2 h3 h4 h5 h6 h7 h8 show ?thesis by (simp add: fresh_def)
qed

text \<open>
  Claim C3 as stated fails in two ways. With non-empty criteria that match no document,
  an update with an operator other than \<^verbatim>\<open>$inc\<close> is not rejected, and with \<open>upsert\<close> it is
  stored as a new document. And when a matched document meets an operator without
  \<^verbatim>\<open>$inc\<close> before a \<^verbatim>\<open>$inc\<close> of a non-numeric field, the error is \<open>UnsupportedOperator\<close>,
  not \<open>TypeMismatch\<close>.
\<close>

theorem update_operator_not_rejected:
  "update quiet (Some [(''name'', JStr ''z'')]) (Some [(''n'', JObj [(''$foo'', JNum 1)])])
     (Some (no_options\<lparr>upsert := True\<rparr>)) (fresh [sample])
   = (Some (Resolved (counts 0 0 1)),
      \<lparr>store = [sample, JObj [(''n'', JObj [(''$foo'', JNum 1)]), (''_id'', JStr ''id'')]],
       held = False,
       trace = [EvLock, EvGet, EvUnlock, EvLock, EvGet,
                EvSet [sample, JObj [(''n'', JObj [(''$foo'', JNum 1)]), (''_id'', JStr ''id'')]],
                EvUnlock],
       issued = 1\<rparr>) \<and>
   unsupported (''n'', JObj [(''$foo'', JNum 1)]) \<and>
   fst (update quiet (Some [(''name'', JStr ''a'')])
          (Some [(''z'', JObj [(''$foo'', JNum 1)]), (''n'', JObj [(''$inc'', JNum 1)])]) None
          (fresh [sample]))
     = Some (Rejected (UnsupportedOperator (JObj [(''$foo'', JNum 1)]))) \<and>
   matchCriteria quiet sample (Some [(''name'', JStr ''a'')]) \<and>
   inc_mismatch sample (''n'', JObj [(''$inc'', JNum 1)])"
  by (simp add: update_defs insert_defs backend_defs no_options_def sample_def unsupported_def
        inc_mismatch_def)

text \<open>
  The empty-criteria branch (lines 300 to 319) is not within the amended claim. With a
  matcher that answers no to empty criteria it is entered, and there a \<^verbatim>\<open>$inc\<close> of a
  non-numeric field is rejected and the write is made all the same, with \<^verbatim>\<open>undefined\<close> in
  the place of the document.
\<close>

lemma update_emptyCriteria_rejects_and_writes:
  "update (quiet\<lparr>matchCriteria := (\<lambda>d c. False)\<rparr>) (Some [])
     (Some [(''n'', JObj [(''$inc'', JNum 1)])]) None (fresh [sample])
   = (Some (Rejected (TypeMismatch ''n'')),
      \<lparr>store = [JUndefined], held = False,
       trace = [EvLock, EvGet, EvSet [JUndefined], EvUnlock], issued = 0\<rparr>)"
  by (simp add: update_defs backend_defs sample_def)

subsection \<open>Evaluations on concrete collections\<close>

text \<open>
  Claim C1. The exclusive section is released on every exit path of a mutating operation.
  The evaluation shows the contrary for the two rejections inside the match loop of
  \<^verbatim>\<open>update\<close>: on a collection with one matching document, an update with an operator
  other than \<^verbatim>\<open>$inc\<close>, and a \<^verbatim>\<open>$inc\<close> of a field that holds a string, are rejected with the
  lock still held and no \<^verbatim>\<open>unlock\<close> among the backend calls.
\<close>

theorem update_rejection_keeps_lock:
  "update quiet (Some [(''name'', JStr ''a'')]) (Some [(''n'', JObj [(''$foo'', JNum 1)])]) None
     (fresh [sample])
   = (Some (Rejected (UnsupportedOperator (JObj [(''$foo'', JNum 1)]))),
      \<lparr>store = [sample], held = True, trace = [EvLock, EvGet], issued = 0\<rparr>) \<and>
   update quiet (Some [(''name'', JStr ''a'')]) (Some [(''n'', JObj [(''$inc'', JNum 1)])]) None
     (fresh [sample])
   = (Some (Rejected (TypeMismatch ''n'')),
      \<lparr>store = [sample], held = True, trace = [EvLock, EvGet], issued = 0\<rparr>)"
  by (simp add: update_defs backend_defs sample_def)

text \<open>
  Claim C2. An \<^verbatim>\<open>update\<close> without update criteria is rejected with no backend call made
  and the lock never taken. The evaluation shows the contrary: the call is rejected with
  the invalid-argument message, and it takes the lock, reads the collection, writes it
  back and releases the lock.
\<close>

theorem update_without_updateCriteria_does_io:
  "update quiet (Some [(''name'', JStr ''a'')]) None None (fresh [sample])
   = (Some (Rejected (InvalidArgument ''No update criteria specified!'')),
      \<lparr>store = [sample], held = False,
       trace = [EvLock, EvGet, EvSet [sample], EvUnlock], issued = 0\<rparr>)"
  by (simp add: update_defs backend_defs sample_def)

text \<open>
  Claim C4. After successful inserts every stored document has an \<open>_id\<close>, also when
  \<^verbatim>\<open>insert\<close> is given an array. The evaluation shows the contrary: inserting an array of
  two documents into the empty collection succeeds, draws one identifier, and stores the
  two documents without any \<open>_id\<close>.
\<close>

theorem insert_array_stores_documents_without_id:
  "insert_op quiet (JArr [JObj [(''name'', JStr ''a'')], JObj [(''name'', JStr ''b'')]]) (fresh [])
   = (Some (Resolved (JArr [JObj [(''name'', JStr ''a'')], JObj [(''name'', JStr ''b'')]])),
      \<lparr>store = [JObj [(''name'', JStr ''a'')], JObj [(''name'', JStr ''b'')]], held = False,
       trace = [EvLock, EvGet,
                EvSet [JObj [(''name'', JStr ''a'')], JObj [(''name'', JStr ''b'')]], EvUnlock],
       issued = 1\<rparr>) \<and>
   list_all (\<lambda>document. get_prop document ''_id'' = JUndefined)
     (store (snd (insert_op quiet
        (JArr [JObj [(''name'', JStr ''a'')], JObj [(''name'', JStr ''b'')]]) (fresh []))))"
  by (simp add: insert_defs backend_defs)

text \<open>
  Claim C7. \<^verbatim>\<open>deleteOne\<close> deletes at most one document, the first match. The evaluation
  shows the contrary: of three documents, two of which match, \<^verbatim>\<open>deleteOne\<close> deletes both
  matching ones.
\<close>

theorem deleteOne_deletes_every_match:
  "deleteOne quiet (Some [(''name'', JStr ''a'')])
     (fresh [JObj [(''name'', JStr ''a''), (''_id'', JStr ''1'')],
             JObj [(''name'', JStr ''a''), (''_id'', JStr ''2'')],
             JObj [(''name'', JStr ''b''), (''_id'', JStr ''3'')]])
   = (Some (Resolved (JBool True)),
      \<lparr>store = [JObj [(''name'', JStr ''b''), (''_id'', JStr ''3'')]], held = False,
       trace = [EvLock, EvGet, EvSet [JObj [(''name'', JStr ''b''), (''_id'', JStr ''3'')]],
                EvUnlock],
       issued = 0\<rparr>)"
  by (simp add: remove_defs backend_defs)

subsection \<open>Identifiers under update\<close>

lemma put_prop_id:
  "p \<noteq> ''_id'' \<Longrightarrow> put_prop d p v = Inr d' \<Longrightarrow> id_of d' = id_of d"
  by (cases d) (auto simp: id_of_def lookup_assign_other)

lemma apply_update_id:
  "''_id'' \<notin> fst ` set u \<Longrightarrow> apply_update d u = Inr d' \<Longrightarrow> id_of d' = id_of d"
proof (induction u arbitrary: d)
  case Nil
  then show ?case by simp
next
  case (Cons e u)
  obtain p v where e: "e = (p, v)" by (cases e)
  from Cons.prems(1) have p: "p \<noteq> ''_id''" and rest: "''_id'' \<notin> fst ` set u"
    by (auto simp: e)
  from Cons.prems(2) obtain x d1 where "put_prop d p x = Inr d1" "apply_update d1 u = Inr d'"
    by (auto simp: e split: if_splits sum.splits jsval.splits)
  then show ?case using Cons.IH [OF rest] put_prop_id [OF p] by metis
qed

lemma fallback_doc_id:
  "''_id'' \<notin> fst ` set u \<Longrightarrow> fallback_doc d u = Inr d' \<Longrightarrow> id_of d' = id_of d"
proof (induction u arbitrary: d)
  case Nil
  then show ?case by simp
next
  case (Cons e u)
  obtain p v where e: "e = (p, v)" by (cases e)
  from Cons.prems(1) have p: "p \<noteq> ''_id''" and rest: "''_id'' \<notin> fst ` set u"
    by (auto simp: e)
  from Cons.prems(2) obtain x d1 where "put_prop d p x = Inr d1" "fallback_doc d1 u = Inr d'"
    by (auto simp: e split: if_splits sum.splits jsval.splits)
  then show ?case using Cons.IH [OF rest] put_prop_id [OF p] by metis
qed

lemma update_loop_ids:
  "''_id'' \<notin> fst ` set u \<Longrightarrow> update_loop m u mul documents = Inr (documents', matched)
     \<Longrightarrow> map id_of documents' = map id_of documents"
proof (induction documents arbitrary: documents' matched)
  case Nil
  then show ?case by simp
next
  case (Cons d rest)
  show ?case
  proof (cases "m d")
    case False
    with Cons.prems(2) obtain rest' where "update_loop m u mul rest = Inr (rest', matched)"
      and "documents' = d # rest'"
      by (auto split: sum.splits)
    then show ?thesis using Cons.IH [OF Cons.prems(1)] by simp
  next
    case True
    with Cons.prems(2) obtain d' where ap: "apply_update d u = Inr d'"
      by (auto split: sum.splits)
    have idd: "id_of d' = id_of d" by (rule apply_update_id [OF Cons.prems(1) ap])
    show ?thesis
    proof (cases mul)
      case False
      with Cons.prems(2) True ap show ?thesis using idd by auto
    next
      case mul: True
      with Cons.prems(2) True ap obtain rest' ms where "update_loop m u mul rest = Inr (rest', ms)"
        and "documents' = d' # rest'"
        by (auto split: sum.splits)
      then show ?thesis using Cons.IH [OF Cons.prems(1)] idd by simp
    qed
  qed
qed

lemma fallback_map_ids:
  "''_id'' \<notin> fst ` set u \<Longrightarrow> fallback_map u documents = (None, Some documents')
     \<Longrightarrow> map id_of documents' = map id_of documents"
proof (induction documents arbitrary: documents')
  case Nil
  then show ?case by simp
next
  case (Cons d rest)
  from Cons.prems(2) obtain d' rest' where fd: "fallback_doc d u = Inr d'"
    and fm: "fallback_map u rest = (None, Some rest')" and eq: "documents' = d' # rest'"
    by (auto split: sum.splits if_splits prod.splits)
  show ?case
    using Cons.IH [OF Cons.prems(1) fm] fallback_doc_id [OF Cons.prems(1) fd] eq by simp
qed

lemma ids_kept_same: "map id_of after = map id_of before \<Longrightarrow> ids_kept before after"
proof -
  assume a: "map id_of after = map id_of before"
  then have "length after = length before" by (rule map_eq_imp_length_eq)
  with a show ?thesis by (simp add: ids_kept_def)
qed

lemma ids_kept_refl: "ids_kept xs xs"
  by (simp add: ids_kept_def)

lemma ids_kept_append: "ids_kept xs (xs @ ys)"
  by (simp add: ids_kept_def)

lemma settle_resolved:
  "pending_or_rejected s \<Longrightarrow> settle s x = Some (Resolved r) \<Longrightarrow> s = None \<and> x = Resolved r"
  by (auto simp: pending_or_rejected_def settle_def split: option.splits outcome.splits)

lemma pending_reject_with: "pending_or_rejected s \<Longrightarrow> pending_or_rejected (reject_with s err)"
  by (auto simp: pending_or_rejected_def reject_with_def settle_def split: option.splits outcome.splits)

lemma reject_with_Some: "reject_with s (Some e) \<noteq> None"
  by (simp add: reject_with_def settle_def split: option.splits)

lemma store_unlock [simp]: "store (unlock w) = store w"
  by (simp add: unlock_def log_def)

lemma store_log [simp]: "store (log e w) = store w"
  by (simp add: log_def)

lemma afterWriteFile_store:
  "pending_or_rejected s
   \<Longrightarrow> fst (afterWriteFile s v (set_op env documents w)) = Some (Resolved r)
   \<Longrightarrow> store (snd (afterWriteFile s v (set_op env documents w))) = documents"
  by (auto simp: afterWriteFile_def set_op_def dest!: settle_resolved split: if_splits)

lemma insert_op_store:
  "\<not> isArray data
   \<Longrightarrow> store (snd (insert_op env data w)) = store w \<or>
       (\<exists>d. store (snd (insert_op env data w)) = store w @ [d])"
  by (cases data)
     (auto simp: insert_op_def insert_afterLockFile_def insert_afterReadFile_def lock_def get_def
        set_op_def Let_def split: option.splits)

lemma update_noMatch_ids:
  "ids_kept (store w) (store (snd (update_noMatch env updateCriteria opts s w)))"
proof -
  have na: "\<not> isArray (as_value updateCriteria)"
    by (simp add: as_value_def split: option.splits)
  from insert_op_store [OF na, of env "unlock w"]
  have "ids_kept (store w) (store (snd (insert_op env (as_value updateCriteria) (unlock w))))"
    by (auto simp: ids_kept_refl ids_kept_append)
  then show ?thesis
    by (auto simp: update_noMatch_def ids_kept_refl split: prod.splits option.splits outcome.splits)
qed

lemma update_emptyCriteria_ids:
  assumes "''_id'' \<notin> fst ` set (entries updateCriteria)"
      and "pending_or_rejected s"
      and "fst (update_emptyCriteria env updateCriteria opts s documents w) = Some (Resolved r)"
  shows "map id_of (store (snd (update_emptyCriteria env updateCriteria opts s documents w)))
           = map id_of documents"
proof (cases "fallback_map (entries updateCriteria) documents")
  case (Pair rej res)
  show ?thesis
  proof (cases res)
    case None
    with Pair assms(2,3) show ?thesis
      using pending_reject_with [OF assms(2), of rej]
      by (auto simp: update_emptyCriteria_def pending_or_rejected_def)
  next
    case (Some updated)
    from assms(3) Pair Some
    have res: "fst (afterWriteFile (reject_with s rej)
                 (if retObj opts then JArr updated else counts (length documents) (length documents) 0)
                 (set_op env updated w)) = Some (Resolved r)"
      by (simp add: update_emptyCriteria_def)
    have rn: "rej = None"
    proof (cases rej)
      case None then show ?thesis .
    next
      case (Some e)
      from res have "reject_with s rej = None"
        using pending_reject_with [OF assms(2), of rej]
        by (auto simp: afterWriteFile_def dest!: settle_resolved split: prod.splits)
      with Some show ?thesis using reject_with_Some by simp
    qed
    have "store (snd (update_emptyCriteria env updateCriteria opts s documents w)) = updated"
      using afterWriteFile_store [OF pending_reject_with [OF assms(2)] res] Pair Some
      by (simp add: update_emptyCriteria_def)
    then show ?thesis
      using fallback_map_ids [OF assms(1)] Pair Some rn by simp
  qed
qed

lemma update_afterReadFile_ids:
  assumes nid: "''_id'' \<notin> fst ` set (entries updateCriteria)"
      and ps: "pending_or_rejected s"
      and res: "fst (update_afterReadFile env criteria updateCriteria opts s (get env w))
                  = Some (Resolved r)"
  shows "ids_kept (store w)
           (store (snd (update_afterReadFile env criteria updateCriteria opts s (get env w))))"
proof (cases "get_fails env (length (trace w))")
  case True
  then show ?thesis
    by (simp add: update_afterReadFile_def get_def ids_kept_refl)
next
  case False
  let ?w = "log EvGet w"
  have g: "get env w = (Inr (store w), ?w)" using False by (simp add: get_def)
  show ?thesis
  proof (cases "update_loop (\<lambda>d. matchCriteria env d criteria) (entries updateCriteria)
                  (multi opts) (store w)")
    case (Inl e)
    then show ?thesis by (simp add: update_afterReadFile_def g ids_kept_refl)
  next
    case (Inr pr)
    obtain documents' matched where pr: "pr = (documents', matched)" by (cases pr)
    have keep: "map id_of documents' = map id_of (store w)"
      using update_loop_ids [OF nid] Inr pr by simp
    show ?thesis
    proof (cases "matched \<noteq> []")
      case True
      with res Inr pr g
      have "store (snd (update_afterReadFile env criteria updateCriteria opts s (get env w)))
              = documents'"
        using afterWriteFile_store [OF ps, of _ env documents' ?w r]
        by (simp add: update_afterReadFile_def)
      with keep show ?thesis by (simp add: ids_kept_same)
    next
      case False
      show ?thesis
      proof (cases "criteria = None \<or> criteria = Some []")
        case True
        with res Inr pr g False
        have "map id_of (store (snd (update_afterReadFile env criteria updateCriteria opts s
                 (get env w)))) = map id_of (store w)"
          using update_emptyCriteria_ids [OF nid ps, of env opts "store w" ?w r]
          by (auto simp: update_afterReadFile_def)
        then show ?thesis by (rule ids_kept_same)
      next
        case nm: False
        with Inr pr g False show ?thesis
          using update_noMatch_ids [of ?w env updateCriteria opts s]
          by (auto simp: update_afterReadFile_def)
      qed
    qed
  qed
qed

lemma store_lock: "store (snd (lock env w)) = store w"
  by (simp add: lock_def)

lemma update_ids:
  assumes nid: "''_id'' \<notin> fst ` set (entries updateCriteria)"
      and res: "fst (update env criteria updateCriteria opt w) = Some (Resolved r)"
  shows "ids_kept (store w) (store (snd (update env criteria updateCriteria opt w)))"
proof -
  define s2 where "s2 = (let s1 = (if criteria = None
                then settle None (Rejected (InvalidArgument ''No criteria specified!''))
                else None) in (if updateCriteria = None
                then settle s1 (Rejected (InvalidArgument ''No update criteria specified!''))
                else s1))"
  have ps: "pending_or_rejected s2"
    by (simp add: s2_def pending_or_rejected_def settle_def Let_def)
  have u: "update env criteria updateCriteria opt w =
             update_afterLockFile env criteria updateCriteria (given_or update_defaults opt) s2
               (lock env w)"
    by (simp add: update_def s2_def Let_def)
  obtain rep w1 where l: "lock env w = (rep, w1)" by (cases "lock env w")
  then have sw: "store w1 = store w" using store_lock [of env w] by simp
  show ?thesis
  proof (cases rep)
    case Waiting
    with res u l ps show ?thesis
      by (auto simp: update_afterLockFile_def pending_or_rejected_def)
  next
    case (Called err)
    with u l have u': "update env criteria updateCriteria opt w =
        update_afterReadFile env criteria updateCriteria (given_or update_defaults opt)
          (reject_with s2 err) (get env w1)"
      by (simp add: update_afterLockFile_def)
    from update_afterReadFile_ids [OF nid pending_reject_with [OF ps]] res u' sw
    show ?thesis by metis
  qed
qed

lemma find_op_store: "store (snd (find_op env criteria opt w)) = store w"
  by (simp add: find_op_def find_afterReadFile_def get_def Let_def split: option.splits)

lemma findOne_store: "store (snd (findOne env criteria w)) = store w"
  by (simp add: findOne_def find_op_store)

lemma updateOne_from_update:
  assumes "fst (updateOne env criteria updateCriteria opt w) = Some (Resolved r)"
  shows "\<exists>r'. fst (update env criteria updateCriteria
                    (Some ((given_or no_options opt)\<lparr>multi := False\<rparr>)) w) = Some (Resolved r') \<and>
              store (snd (updateOne env criteria updateCriteria opt w)) =
              store (snd (update env criteria updateCriteria
                       (Some ((given_or no_options opt)\<lparr>multi := False\<rparr>)) w))"
  using assms
  by (auto simp: updateOne_def Let_def findOne_store
        split: prod.splits option.splits outcome.splits if_splits)

lemma updateMany_from_update:
  assumes "fst (updateMany env criteria updateCriteria opt w) = Some (Resolved r)"
  shows "\<exists>r'. fst (update env criteria updateCriteria
                    (Some ((given_or no_options opt)\<lparr>multi := True\<rparr>)) w) = Some (Resolved r') \<and>
              store (snd (updateMany env criteria updateCriteria opt w)) =
              store (snd (update env criteria updateCriteria
                       (Some ((given_or no_options opt)\<lparr>multi := True\<rparr>)) w))"
  using assms
  by (auto simp: updateMany_def Let_def find_op_store
        split: prod.splits option.splits outcome.splits if_splits)

lemma findAndModify_from_update:
  assumes "fst (findAndModify env criteria updateCriteria opt w) = Some (Resolved r)"
  shows "\<exists>r'. fst (update env (normalise criteria) updateCriteria
                    (Some (given_or (no_options\<lparr>multi := True, retObj := True\<rparr>) opt)) w)
                 = Some (Resolved r') \<and>
              store (snd (findAndModify env criteria updateCriteria opt w)) =
              store (snd (update env (normalise criteria) updateCriteria
                       (Some (given_or (no_options\<lparr>multi := True, retObj := True\<rparr>) opt)) w))"
  using assms
  by (auto simp: findAndModify_def Let_def settle_def
        split: prod.splits option.splits outcome.splits if_splits)

text \<open>
  Claim C9, as amended. When the update criteria have no \<open>_id\<close> entry, every \<^verbatim>\<open>update\<close>,
  \<^verbatim>\<open>updateOne\<close>, \<^verbatim>\<open>updateMany\<close> and \<^verbatim>\<open>findAndModify\<close> that resolves leaves each document
  that was stored before in its place with the \<open>_id\<close> it had; documents are at most added
  behind them (the upsert).
\<close>

theorem update_family_keeps_ids:
  assumes nid: "''_id'' \<notin> fst ` set (entries updateCriteria)"
  shows "(fst (update env criteria updateCriteria opt w) = Some (Resolved r1) \<longrightarrow>
            ids_kept (store w) (store (snd (update env criteria updateCriteria opt w)))) \<and>
         (fst (updateOne env criteria updateCriteria opt w) = Some (Resolved r2) \<longrightarrow>
            ids_kept (store w) (store (snd (updateOne env criteria updateCriteria opt w)))) \<and>
         (fst (updateMany env criteria updateCriteria opt w) = Some (Resolved r3) \<longrightarrow>
            ids_kept (store w) (store (snd (updateMany env criteria updateCriteria opt w)))) \<and>
         (fst (findAndModify env criteria updateCriteria opt w) = Some (Resolved r4) \<longrightarrow>
            ids_kept (store w) (store (snd (findAndModify env criteria updateCriteria opt w))))"
proof (intro conjI impI)
  assume "fst (update env criteria updateCriteria opt w) = Some (Resolved r1)"
  then show "ids_kept (store w) (store (snd (update env criteria updateCriteria opt w)))"
    by (rule update_ids [OF nid])
next
  assume "fst (updateOne env criteria updateCriteria opt w) = Some (Resolved r2)"
  from updateOne_from_update [OF this] update_ids [OF nid]
  show "ids_kept (store w) (store (snd (updateOne env criteria updateCriteria opt w)))"
    by metis
next
  assume "fst (updateMany env criteria updateCriteria opt w) = Some (Resolved r3)"
  from updateMany_from_update [OF this] update_ids [OF nid]
  show "ids_kept (store w) (store (snd (updateMany env criteria updateCriteria opt w)))"
    by metis
next
  assume "fst (findAndModify env criteria updateCriteria opt w) = Some (Resolved r4)"
  from findAndModify_from_update [OF this] update_ids [OF nid]
  show "ids_kept (store w) (store (snd (findAndModify env criteria updateCriteria opt w)))"
    by metis
qed

lemmas find_defs = find_op_def find_afterReadFile_def findOne_def
lemmas wrapper_defs = updateOne_def updateMany_def findAndModify_def updateCriteria_after_def
  modified_some_def

theorem update_family_keeps_ids_witness:
  "''_id'' \<notin> fst ` set (entries (Some [(''n'', JNum 5)])) \<and>
   fst (update quiet (Some [(''name'', JStr ''a'')]) (Some [(''n'', JNum 5)]) None (fresh [stored]))
     = Some (Resolved (counts 1 1 0)) \<and>
   fst (updateOne quiet (Some [(''name'', JStr ''a'')]) (Some [(''n'', JNum 5)]) None
          (fresh [stored])) = Some (Resolved (counts 1 1 0)) \<and>
   fst (updateMany quiet (Some [(''name'', JStr ''a'')]) (Some [(''n'', JNum 5)]) None
          (fresh [stored])) = Some (Resolved (counts 1 1 0)) \<and>
   fst (findAndModify quiet (Some [(''name'', JStr ''a'')]) (Some [(''n'', JNum 5)]) None
          (fresh [stored])) = Some (Resolved (JObj [(''n'', JNum 5)])) \<and>
   ids_kept (store (fresh [stored]))
     (store (snd (update quiet (Some [(''name'', JStr ''a'')]) (Some [(''n'', JNum 5)]) None
        (fresh [stored])))) \<and>
   ids_kept (store (fresh [stored]))
     (store (snd (updateOne quiet (Some [(''name'', JStr ''a'')]) (Some [(''n'', JNum 5)]) None
        (fresh [stored])))) \<and>
   ids_kept (store (fresh [stored]))
     (store (snd (updateMany quiet (Some [(''name'', JStr ''a'')]) (Some [(''n'', JNum 5)]) None
        (fresh [stored])))) \<and>
   ids_kept (store (fresh [stored]))
     (store (snd (findAndModify quiet (Some [(''name'', JStr ''a'')]) (Some [(''n'', JNum 5)]) None
        (fresh [stored])))) \<and>
   store (snd (update quiet (Some [(''name'', JStr ''a'')]) (Some [(''n'', JNum 5)]) None
        (fresh [stored]))) = [JObj [(''name'', JStr ''a''), (''_id'', JStr ''1''), (''n'', JNum 5)]]"
proof -
  let ?c = "Some [(''name'', JStr ''a'')]"
  let ?u = "Some [(''n'', JNum 5)]"
  have h: "''_id'' \<notin> fst ` set (entries ?u)" by (simp add: entries_def)
  have r1: "fst (update quiet ?c ?u None (fresh [stored])) = Some (Resolved (counts 1 1 0))"
    by (simp add: update_defs backend_defs stored_def)
  have r2: "fst (updateOne quiet ?c ?u None (fresh [stored])) = Some (Resolved (counts 1 1 0))"
    by (simp add: wrapper_defs update_defs backend_defs no_options_def stored_def)
  have r3: "fst (updateMany quiet ?c ?u None (fresh [stored])) = Some (Resolved (counts 1 1 0))"
    by (simp add: wrapper_defs update_defs backend_defs no_options_def stored_def)
  have r4: "fst (findAndModify quiet ?c ?u None (fresh [stored]))
              = Some (Resolved (JObj [(''n'', JNum 5)]))"
    by (simp add: wrapper_defs update_defs backend_defs no_options_def normalise_def stored_def)
  have st: "store (snd (update quiet ?c ?u None (fresh [stored])))
              = [JObj [(''name'', JStr ''a''), (''_id'', JStr ''1''), (''n'', JNum 5)]]"
    by (simp add: update_defs backend_defs stored_def)
  note k = update_family_keeps_ids [OF h, of quiet ?c None "fresh [stored]"
             "counts 1 1 0" "counts 1 1 0" "counts 1 1 0" "JObj [(''n'', JNum 5)]"]
  from k r1 have k1: "ids_kept (store (fresh [stored]))
      (store (snd (update quiet ?c ?u None (fresh [stored]))))" by blast
  from k r2 have k2: "ids_kept (store (fresh [stored]))
      (store (snd (updateOne quiet ?c ?u None (fresh [stored]))))" by blast
  from k r3 have k3: "ids_kept (store (fresh [stored]))
      (store (snd (updateMany quiet ?c ?u None (fresh [stored]))))" by blast
  from k r4 have k4: "ids_kept (store (fresh [stored]))
      (store (snd (findAndModify quiet ?c ?u None (fresh [stored]))))" by blast
  show ?thesis by (intro conjI h r1 r2 r3 r4 k1 k2 k3 k4 st)
qed

text \<open>
  Claim C9 as stated fails: an update whose criteria name \<open>_id\<close> resolves and the matched
  document is stored with the new \<open>_id\<close>.
\<close>

theorem update_reassigns_id:
  "update quiet (Some [(''name'', JStr ''a'')]) (Some [(''_id'', JStr ''2'')]) None (fresh [stored])
   = (Some (Resolved (counts 1 1 0)),
      \<lparr>store = [JObj [(''name'', JStr ''a''), (''_id'', JStr ''2'')]], held = False,
       trace = [EvLock, EvGet, EvSet [JObj [(''name'', JStr ''a''), (''_id'', JStr ''2'')]], EvUnlock],
       issued = 0\<rparr>) \<and>
   id_of stored = JStr ''1'' \<and>
   id_of (JObj [(''name'', JStr ''a''), (''_id'', JStr ''2'')]) = JStr ''2''"
  by (simp add: update_defs backend_defs stored_def id_of_def)

subsection \<open>An update that matches nothing\<close>

lemma update_loop_no_match:
  "\<not> list_ex m documents \<Longrightarrow> update_loop m u mul documents = Inr (documents, [])"
  by (induction documents) auto

text \<open>
  Claim C6, as amended. Let \<^verbatim>\<open>update\<close> be called with non-empty criteria that match no
  stored document, the lock free and the backend not failing. With \<open>upsert\<close> the update
  criteria object, given a fresh \<open>_id\<close>, is appended as the one new document; without
  \<open>upsert\<close> the stored collection stays as it is. The operation resolves, with the counts
  (0, 0, 1) respectively (0, 0, 0) when \<open>retObj\<close> is not set, and with the update criteria
  object itself (carrying the new \<open>_id\<close> after an upsert) when \<open>retObj\<close> is set. The lock is
  released.
\<close>

theorem update_without_match:
  assumes ne: "c \<noteq> []"
      and nomatch: "\<not> list_ex (\<lambda>d. matchCriteria env d (Some c)) (store w)"
      and free: "\<not> held w"
      and lk: "\<forall>n. \<not> lock_fails env n"
      and rd: "\<forall>n. \<not> get_fails env n"
      and wr: "\<forall>n. \<not> set_fails env n"
  shows "(upsert (given_or update_defaults opt) \<longrightarrow>
            fst (update env (Some c) (Some u) opt w) =
              Some (Resolved (if retObj (given_or update_defaults opt)
                              then JObj (assign u ''_id'' (JStr (generateUUID env (issued w))))
                              else counts 0 0 1)) \<and>
            store (snd (update env (Some c) (Some u) opt w)) =
              store w @ [JObj (assign u ''_id'' (JStr (generateUUID env (issued w))))] \<and>
            \<not> held (snd (update env (Some c) (Some u) opt w))) \<and>
         (\<not> upsert (given_or update_defaults opt) \<longrightarrow>
            fst (update env (Some c) (Some u) opt w) =
              Some (Resolved (if retObj (given_or update_defaults opt) then JObj u
                              else counts 0 0 0)) \<and>
            store (snd (update env (Some c) (Some u) opt w)) = store w \<and>
            \<not> held (snd (update env (Some c) (Some u) opt w)))"
  using ne free lk rd wr update_loop_no_match [OF nomatch]
  by (simp add: update_def update_afterLockFile_def update_afterReadFile_def update_noMatch_def
        insert_op_def insert_afterLockFile_def insert_afterReadFile_def
        lock_def unlock_def get_def set_op_def log_def settle_def reject_with_def entries_def
        as_value_def Let_def)

theorem update_without_match_witness:
  "[(''name'', JStr ''z'')] \<noteq> [] \<and>
   \<not> list_ex (\<lambda>d. matchCriteria quiet d (Some [(''name'', JStr ''z'')])) (store (fresh [stored])) \<and>
   \<not> held (fresh [stored]) \<and>
   (\<forall>n. \<not> lock_fails quiet n) \<and> (\<forall>n. \<not> get_fails quiet n) \<and> (\<forall>n. \<not> set_fails quiet n) \<and>
   upsert (given_or update_defaults (Some (no_options\<lparr>upsert := True\<rparr>))) \<and>
   \<not> upsert (given_or update_defaults None) \<and>
   fst (update quiet (Some [(''name'', JStr ''z'')]) (Some [(''name'', JStr ''y'')])
          (Some (no_options\<lparr>upsert := True\<rparr>)) (fresh [stored])) = Some (Resolved (counts 0 0 1)) \<and>
   store (snd (update quiet (Some [(''name'', JStr ''z'')]) (Some [(''name'', JStr ''y'')])
          (Some (no_options\<lparr>upsert := True\<rparr>)) (fresh [stored])))
     = [stored, JObj [(''name'', JStr ''y''), (''_id'', JStr ''id'')]] \<and>
   fst (update quiet (Some [(''name'', JStr ''z'')]) (Some [(''name'', JStr ''y'')]) None
          (fresh [stored])) = Some (Resolved (counts 0 0 0)) \<and>
   store (snd (update quiet (Some [(''name'', JStr ''z'')]) (Some [(''name'', JStr ''y'')]) None
          (fresh [stored]))) = [stored]"
proof -
  let ?c = "[(''name'', JStr ''z'')]"
  let ?u = "[(''name'', JStr ''y'')]"
  let ?o = "Some (no_options\<lparr>upsert := True\<rparr>)"
  have h1: "?c \<noteq> []" by simp
  have h2: "\<not> list_ex (\<lambda>d. matchCriteria quiet d (Some ?c)) (store (fresh [stored]))"
    by (simp add: quiet_def fresh_def fieldsMatch_def stored_def lookup_def)
  have h3: "\<not> held (fresh [stored])" by (simp add: fresh_def)
  have h4: "\<forall>n. \<not> lock_fails quiet n" by (simp add: quiet_def)
  have h5: "\<forall>n. \<not> get_fails quiet n" by (simp add: quiet_def)
  have h6: "\<forall>n. \<not> set_fails quiet n" by (simp add: quiet_def)
  have a: "upsert (given_or update_defaults ?o)" by (simp add: given_or_def no_options_def)
  have b: "\<not> upsert (given_or update_defaults None)"
    by (simp add: given_or_def update_defaults_def)
  have nr: "\<not> retObj (given_or update_defaults ?o)" "\<not> retObj (given_or update_defaults None)"
    by (simp_all add: given_or_def no_options_def update_defaults_def)
  have g: "JObj (assign ?u ''_id'' (JStr (generateUUID quiet (issued (fresh [stored])))))
             = JObj [(''name'', JStr ''y''), (''_id'', JStr ''id'')]"
    by (simp add: quiet_def fresh_def uuid_def)
  from update_without_match [OF h1 h2 h3 h4 h5 h6, of ?o ?u] a nr g
  have r1: "fst (update quiet (Some ?c) (Some ?u) ?o (fresh [stored]))
              = Some (Resolved (counts 0 0 1))"
    and s1: "store (snd (update quiet (Some ?c) (Some ?u) ?o (fresh [stored])))
              = [stored, JObj [(''name'', JStr ''y''), (''_id'', JStr ''id'')]]"
    by (simp_all add: fresh_def)
  from update_without_match [OF h1 h2 h3 h4 h5 h6, of None ?u] b nr
  have r2: "fst (update quiet (Some ?c) (Some ?u) None (fresh [stored]))
              = Some (Resolved (counts 0 0 0))"
    and s2: "store (snd (update quiet (Some ?c) (Some ?u) None (fresh [stored]))) = [stored]"
    by (simp_all add: fresh_def)
  show ?thesis by (intro conjI h1 h2 h3 h4 h5 h6 a b r1 s1 r2 s2)
qed

text \<open>
  Claim C6 as stated fails when \<open>retObj\<close> is set: the upsert resolves with the inserted
  document, which has no upserted count, and the update without upsert resolves with the
  update criteria object, which has no counts.
\<close>

theorem update_without_match_retObj:
  "fst (update quiet (Some [(''name'', JStr ''z'')]) (Some [(''name'', JStr ''y'')])
          (Some (no_options\<lparr>upsert := True, retObj := True\<rparr>)) (fresh [stored]))
     = Some (Resolved (JObj [(''name'', JStr ''y''), (''_id'', JStr ''id'')])) \<and>
   get_prop (JObj [(''name'', JStr ''y''), (''_id'', JStr ''id'')]) ''nUpserted'' = JUndefined \<and>
   fst (update quiet (Some [(''name'', JStr ''z'')]) (Some [(''name'', JStr ''y'')])
          (Some (no_options\<lparr>retObj := True\<rparr>)) (fresh [stored]))
     = Some (Resolved (JObj [(''name'', JStr ''y'')])) \<and>
   get_prop (JObj [(''name'', JStr ''y'')]) ''nMatched'' = JUndefined"
  by (simp add: update_defs insert_defs backend_defs no_options_def stored_def)

subsection \<open>distinct\<close>

lemma strict_eq_eq: "strict_eq r v \<Longrightarrow> r = v"
  by (cases r) auto

lemma strict_eq_primitive: "\<not> instanceof_Object v \<Longrightarrow> strict_eq r v = (r = v)"
  by (cases r; cases v) auto

lemma strict_eq_object: "instanceof_Object v \<Longrightarrow> \<not> strict_eq r v"
  by (cases r; cases v) auto

lemma set_uniq_into: "set (uniq_into result vs) = set result \<union> set vs"
proof (induction vs arbitrary: result)
  case Nil
  then show ?case by simp
next
  case (Cons v vs)
  have "list_ex (\<lambda>r. strict_eq r v) result \<Longrightarrow> v \<in> set result"
    by (auto simp: list_ex_iff dest: strict_eq_eq)
  then show ?case using Cons.IH by auto
qed

lemma count_uniq_into_primitive:
  "\<not> instanceof_Object v \<Longrightarrow> count_list result v \<le> 1
     \<Longrightarrow> count_list (uniq_into result vs) v \<le> 1"
proof (induction vs arbitrary: result)
  case Nil
  then show ?case by simp
next
  case (Cons x vs)
  show ?case
  proof (cases "list_ex (\<lambda>r. strict_eq r x) result")
    case True
    then show ?thesis using Cons by simp
  next
    case False
    have "count_list (result @ [x]) v \<le> 1"
    proof (cases "x = v")
      case True
      with False Cons.prems(1) have "v \<notin> set result"
        by (simp add: list_ex_iff strict_eq_primitive)
      then have "count_list result v = 0" by (simp add: count_list_0_iff)
      with True show ?thesis by simp
    next
      case False
      with Cons.prems(2) show ?thesis by simp
    qed
    with False show ?thesis using Cons.IH [OF Cons.prems(1)] by simp
  qed
qed

lemma count_uniq_into_object:
  "instanceof_Object v
     \<Longrightarrow> count_list (uniq_into result vs) v = count_list result v + count_list vs v"
proof (induction vs arbitrary: result)
  case Nil
  then show ?case by simp
next
  case (Cons x vs)
  show ?case
  proof (cases "x = v")
    case True
    with Cons.prems have "\<not> list_ex (\<lambda>r. strict_eq r x) result"
      by (simp add: list_ex_iff strict_eq_object)
    then show ?thesis using Cons True by simp
  next
    case False
    then show ?thesis using Cons by simp
  qed
qed

lemma count_list_filter:
  "count_list (filter P xs) v = (if P v then count_list xs v else 0)"
  by (induction xs) auto

lemma those_field_values:
  "list_all isObject documents \<Longrightarrow> name \<notin> set inherited_names
     \<Longrightarrow> those (map (field_value name) documents) = Some (map (\<lambda>d. get_prop d name) documents)"
proof (induction documents)
  case Nil
  then show ?case by simp
next
  case (Cons d documents)
  from Cons.prems(1) obtain kvs where "d = JObj kvs" by (cases d) auto
  with Cons show ?case by simp
qed

lemma not_nullish_objects: "list_all isObject documents \<Longrightarrow> \<not> list_ex nullish documents"
proof (induction documents)
  case Nil
  then show ?case by simp
next
  case (Cons d documents)
  then show ?case by (cases d) auto
qed

text \<open>
  Claim C8, as amended. For a stored collection of objects and a non-empty field name
  that objects do not inherit, the read succeeding, \<^verbatim>\<open>distinct\<close> resolves with an array
  that holds exactly the truthy values some document has in that field. A primitive
  value (string, number, boolean) is in it once; object and array values are compared by
  identity, so that every occurrence of one is kept. Absent fields, \<^verbatim>\<open>null\<close>, \<^verbatim>\<open>false\<close>,
  \<^verbatim>\<open>0\<close> and the empty string are left out. The stored collection is not changed.
\<close>

theorem distinct_truthy_values:
  assumes nm: "name \<noteq> []"
      and own: "name \<notin> set inherited_names"
      and rd: "\<not> get_fails env (length (trace w))"
      and objs: "list_all isObject (store w)"
  shows "\<exists>vs. distinct_op env (JStr name) w = Some (Some (Resolved (JArr vs)), log EvGet w) \<and>
           set vs = {v. truthy v \<and> v \<in> (\<lambda>d. get_prop d name) ` set (store w)} \<and>
           (\<forall>v. \<not> instanceof_Object v \<longrightarrow> count_list vs v \<le> 1) \<and>
           (\<forall>v. instanceof_Object v \<longrightarrow>
                count_list vs v = count_list (map (\<lambda>d. get_prop d name) (store w)) v) \<and>
           store (log EvGet w) = store w"
proof -
  let ?fvs = "map (\<lambda>d. get_prop d name) (store w)"
  let ?vs = "distinctValues ?fvs"
  have r: "distinct_op env (JStr name) w = Some (Some (Resolved (JArr ?vs)), log EvGet w)"
    using nm rd not_nullish_objects [OF objs] those_field_values [OF objs own]
    by (simp add: distinct_op_def distinct_afterReadFile_def get_def settle_def)
  have s: "set ?vs = {v. truthy v \<and> v \<in> (\<lambda>d. get_prop d name) ` set (store w)}"
    by (auto simp: distinctValues_def compact_def uniq_def set_uniq_into)
  have p: "\<not> instanceof_Object v \<longrightarrow> count_list ?vs v \<le> 1" for v
    using count_uniq_into_primitive [of v "[]"]
    by (simp add: distinctValues_def compact_def uniq_def count_list_filter)
  have o: "instanceof_Object v \<longrightarrow> count_list ?vs v = count_list ?fvs v" for v
    using count_uniq_into_object [of v "[]"]
    by (cases v) (simp_all add: distinctValues_def compact_def uniq_def count_list_filter)
  from r s p o show ?thesis by (intro exI [of _ ?vs]) simp
qed

lemmas distinct_defs = distinct_op_def distinct_afterReadFile_def distinctValues_def uniq_def
  compact_def inherited_names_def

theorem distinct_truthy_values_witness:
  "''tag'' \<noteq> [] \<and>
   ''tag'' \<notin> set inherited_names \<and>
   \<not> get_fails quiet (length (trace (fresh tagged))) \<and>
   list_all isObject (store (fresh tagged)) \<and>
   distinct_op quiet (JStr ''tag'') (fresh tagged)
     = Some (Some (Resolved (JArr [JStr ''a'', JStr ''b''])), log EvGet (fresh tagged)) \<and>
   set [JStr ''a'', JStr ''b''] =
     {v. truthy v \<and> v \<in> (\<lambda>d. get_prop d ''tag'') ` set (store (fresh tagged))} \<and>
   \<not> instanceof_Object (JStr ''a'') \<and> count_list [JStr ''a'', JStr ''b''] (JStr ''a'') \<le> 1"
proof -
  have h1: "''tag'' \<noteq> []" by simp
  have h2: "''tag'' \<notin> set inherited_names" by (simp add: inherited_names_def)
  have h3: "\<not> get_fails quiet (length (trace (fresh tagged)))" by (simp add: quiet_def)
  have h4: "list_all isObject (store (fresh tagged))" by (simp add: fresh_def tagged_def)
  have r: "distinct_op quiet (JStr ''tag'') (fresh tagged)
             = Some (Some (Resolved (JArr [JStr ''a'', JStr ''b''])), log EvGet (fresh tagged))"
    by (simp add: distinct_defs backend_defs tagged_def)
  have h5: "\<not> instanceof_Object (JStr ''a'')" by simp
  from distinct_truthy_values [OF h1 h2 h3 h4] r
  have s: "set [JStr ''a'', JStr ''b''] =
     {v. truthy v \<and> v \<in> (\<lambda>d. get_prop d ''tag'') ` set (store (fresh tagged))}"
    and c: "\<forall>v. \<not> instanceof_Object v \<longrightarrow> count_list [JStr ''a'', JStr ''b''] v \<le> 1"
    by auto
  from c h5 have c': "count_list [JStr ''a'', JStr ''b''] (JStr ''a'') \<le> 1" by blast
  show ?thesis by (intro conjI h1 h2 h3 h4 r s h5 c')
qed

text \<open>
  Claim C8 as stated fails in two ways. Of the field values \<open>a\<close>, \<open>0\<close>, \<open>a\<close>, \<^verbatim>\<open>false\<close>, the
  empty string, \<^verbatim>\<open>null\<close>, absent and \<open>b\<close>, \<^verbatim>\<open>distinct\<close> returns \<open>a\<close> and \<open>b\<close> only: the
  non-null values \<open>0\<close>, \<^verbatim>\<open>false\<close> and the empty string are not in the result. And of two
  documents that each hold an array with the one element \<open>x\<close>, \<^verbatim>\<open>distinct\<close> returns both
  arrays: the value is in the result twice.
\<close>

theorem distinct_drops_falsy_values:
  "distinct_op quiet (JStr ''tag'') (fresh tagged)
     = Some (Some (Resolved (JArr [JStr ''a'', JStr ''b''])), log EvGet (fresh tagged)) \<and>
   field_value ''tag'' (tagged ! 1) = Some (JNum 0) \<and> JNum 0 \<notin> set [JStr ''a'', JStr ''b''] \<and>
   field_value ''tag'' (tagged ! 3) = Some (JBool False) \<and>
   JBool False \<notin> set [JStr ''a'', JStr ''b''] \<and>
   field_value ''tag'' (tagged ! 4) = Some (JStr '''') \<and>
   JStr '''' \<notin> set [JStr ''a'', JStr ''b''] \<and>
   distinct_op quiet (JStr ''tag'') (fresh listed)
     = Some (Some (Resolved (JArr [JArr [JStr ''x''], JArr [JStr ''x'']])),
             log EvGet (fresh listed)) \<and>
   count_list [JArr [JStr ''x''], JArr [JStr ''x'']] (JArr [JStr ''x'']) = 2"
  by (simp add: distinct_defs backend_defs tagged_def listed_def)

subsection \<open>Two upserts in flight together\<close>

text \<open>
  The two parts are the whole of the call: an \<^verbatim>\<open>update\<close> that comes to the \<^verbatim>\<open>insert\<close> of its
  upsert is \<open>update_released\<close> followed by that \<^verbatim>\<open>insert\<close>.
\<close>

lemma update_split:
  assumes "update_released env criteria updateCriteria opt w = Some (s, data, w')"
  shows "update env criteria updateCriteria opt w =
           update_afterInsert (given_or update_defaults opt) s (insert_locked env data w')"
proof -
  from assms obtain err w1 where l: "lock env w = (Called err, w1)"
    by (cases "lock env w"; cases "fst (lock env w)")
       (auto simp: update_released_def Let_def)
  from assms l obtain documents w2 where g: "get env w1 = (Inr documents, w2)"
    by (cases "get env w1"; cases "fst (get env w1)")
       (auto simp: update_released_def Let_def)
  from assms l g obtain documents' where
    u: "update_loop (\<lambda>d. matchCriteria env d criteria) (entries updateCriteria)
          (multi (given_or update_defaults opt)) documents = Inr (documents', [])"
    by (auto simp: update_released_def Let_def split: sum.splits if_splits)
  from assms l g u obtain kvs where c: "updateCriteria = Some kvs"
    and nc: "criteria \<noteq> None" "criteria \<noteq> Some []"
    and up: "upsert (given_or update_defaults opt)"
    by (auto simp: update_released_def Let_def split: if_splits option.splits)
  from assms l g u c nc up show ?thesis
    by (auto simp: update_released_def update_def update_afterLockFile_def
          update_afterReadFile_def update_noMatch_def update_afterInsert_def insert_locked_def
          insert_op_def as_value_def Let_def
          split: prod.splits option.splits outcome.splits)
qed

text \<open>
  Claim C5. The collection after calls issued together is the one that some order of the
  calls, one after the other, leaves. The evaluation shows the contrary for two upserts
  with the criteria \<open>name = z\<close> on the empty collection. Each call has the lock for its
  read, finds nothing and releases the lock before its \<^verbatim>\<open>insert\<close> takes it again; with the
  read of the second call between the read and the \<^verbatim>\<open>insert\<close> of the first, both calls
  resolve with one upserted document and two documents are stored. In either order one
  after the other, the second call matches the document the first has inserted, and one
  document is stored.
\<close>

theorem upserts_interleaved_store_two:
  "upserts_interleaved quiet (Some (no_options\<lparr>upsert := True\<rparr>))
     ([(''name'', JStr ''z'')], [(''name'', JStr ''z''), (''by'', JStr ''A'')])
     ([(''name'', JStr ''z'')], [(''name'', JStr ''z''), (''by'', JStr ''B'')]) (fresh [])
   = Some (Some (Resolved (counts 0 0 1)), Some (Resolved (counts 0 0 1)),
       \<lparr>store = [JObj [(''name'', JStr ''z''), (''by'', JStr ''A''), (''_id'', JStr ''id'')],
                 JObj [(''name'', JStr ''z''), (''by'', JStr ''B''), (''_id'', JStr ''id+'')]],
        held = False,
        trace = [EvLock, EvGet, EvUnlock, EvLock, EvGet, EvUnlock,
                 EvLock, EvGet,
                 EvSet [JObj [(''name'', JStr ''z''), (''by'', JStr ''A''), (''_id'', JStr ''id'')]],
                 EvUnlock,
                 EvLock, EvGet,
                 EvSet [JObj [(''name'', JStr ''z''), (''by'', JStr ''A''), (''_id'', JStr ''id'')],
                        JObj [(''name'', JStr ''z''), (''by'', JStr ''B''), (''_id'', JStr ''id+'')]],
                 EvUnlock],
        issued = 2\<rparr>) \<and>
   store (upserts_serial quiet (Some (no_options\<lparr>upsert := True\<rparr>))
     ([(''name'', JStr ''z'')], [(''name'', JStr ''z''), (''by'', JStr ''A'')])
     ([(''name'', JStr ''z'')], [(''name'', JStr ''z''), (''by'', JStr ''B'')]) (fresh []))
   = [JObj [(''name'', JStr ''z''), (''by'', JStr ''B''), (''_id'', JStr ''id'')]] \<and>
   store (upserts_serial quiet (Some (no_options\<lparr>upsert := True\<rparr>))
     ([(''name'', JStr ''z'')], [(''name'', JStr ''z''), (''by'', JStr ''B'')])
     ([(''name'', JStr ''z'')], [(''name'', JStr ''z''), (''by'', JStr ''A'')]) (fresh []))
   = [JObj [(''name'', JStr ''z''), (''by'', JStr ''A''), (''_id'', JStr ''id'')]]"
  by (simp add: upserts_interleaved_def upserts_serial_def update_released_def
        update_afterInsert_def insert_locked_def update_defs insert_defs backend_defs
        no_options_def)

text \<open>
  A second way out of the exclusive section: after a failed lock (lines 179 to 181)
  \<^verbatim>\<open>insert\<close> rejects and goes on to read and to write all the same.
\<close>

lemma insert_after_failed_lock:
  "insert_op (quiet\<lparr>lock_fails := (\<lambda>n. True)\<rparr>) (JObj [(''name'', JStr ''a'')]) (fresh [])
   = (Some (Rejected LockError),
      \<lparr>store = [JObj [(''name'', JStr ''a''), (''_id'', JStr ''id'')]], held = False,
       trace = [EvLock, EvGet, EvSet [JObj [(''name'', JStr ''a''), (''_id'', JStr ''id'')]],
                EvUnlock],
       issued = 1\<rparr>)"
  by (simp add: insert_defs backend_defs)

subsection \<open>Failures of the flush\<close>

lemma after_sets_frame:
  "interval (after_sets contents self) = interval self \<and>
   file_locked (after_sets contents self) = file_locked self"
  by (induction contents arbitrary: self) (simp_all add: after_sets_def memory_set_def)

text \<open>
  Claim C10, as amended. When the initial read fails, the constructor's callback throws
  the error: nothing is loaded and no interval is installed. When a tick fails to take
  the lock or to write, \<^verbatim>\<open>flushToDisk\<close> throws the error in the same way and the driver
  neither catches nor reports it; the interval stays installed, the table and the last
  flushed contents are untouched and a lock taken for the write has been released, so
  that, whatever \<^verbatim>\<open>set\<close> calls follow, a tick that runs afterwards and does not fail flushes
  the table as it is then.
\<close>

theorem flush_failures:
  "fst (Memory flushOption file (Inl err)) = Some err \<and>
   interval (snd (Memory flushOption file (Inl err))) = None \<and>
   memoryTable (snd (Memory flushOption file (Inl err))) = [] \<and>
   (interval self = Some period \<longrightarrow> lockFails \<or> writeFails \<longrightarrow>
      fst (tick lockFails writeFails self) = Some (if lockFails then LockError else IOError) \<and>
      interval (snd (tick lockFails writeFails self)) = Some period \<and>
      memoryTable (snd (tick lockFails writeFails self)) = memoryTable self \<and>
      flushed (snd (tick lockFails writeFails self)) = flushed self \<and>
      file_locked (snd (tick lockFails writeFails self)) = (lockFails \<and> file_locked self) \<and>
      fst (tick False False (after_sets contents (snd (tick lockFails writeFails self)))) = None \<and>
      flushed (snd (tick False False (after_sets contents (snd (tick lockFails writeFails self)))))
        = Some (memoryTable (after_sets contents (snd (tick lockFails writeFails self)))))"
proof -
  have a: "fst (Memory flushOption file (Inl err)) = Some err \<and>
   interval (snd (Memory flushOption file (Inl err))) = None \<and>
   memoryTable (snd (Memory flushOption file (Inl err))) = []"
    by (simp add: Memory_def Let_def)
  have b: "fst (tick False False m) = None \<and> flushed (snd (tick False False m)) = Some (memoryTable m)"
    if "interval m = Some period" for m
    using that by (simp add: tick_def flushToDisk_def Let_def)
  have c: "fst (tick lockFails writeFails self) = Some (if lockFails then LockError else IOError) \<and>
      interval (snd (tick lockFails writeFails self)) = Some period \<and>
      memoryTable (snd (tick lockFails writeFails self)) = memoryTable self \<and>
      flushed (snd (tick lockFails writeFails self)) = flushed self \<and>
      file_locked (snd (tick lockFails writeFails self)) = (lockFails \<and> file_locked self)"
    if "interval self = Some period" "lockFails \<or> writeFails"
    using that by (auto simp: tick_def flushToDisk_def Let_def)
  show ?thesis
    using a b [of "after_sets contents (snd (tick lockFails writeFails self))"] c after_sets_frame
    by simp
qed

theorem flush_failures_witness:
  "interval (snd (Memory 0 ''users.json'' (Inr (JArr [])))) = Some 10000 \<and>
   (True \<or> False) \<and>
   fst (tick True False (snd (Memory 0 ''users.json'' (Inr (JArr []))))) \<noteq> None \<and>
   interval (snd (tick True False (snd (Memory 0 ''users.json'' (Inr (JArr [])))))) = Some 10000 \<and>
   fst (tick False False (after_sets [JArr [stored]]
          (snd (tick True False (snd (Memory 0 ''users.json'' (Inr (JArr [])))))))) = None \<and>
   flushed (snd (tick False False (after_sets [JArr [stored]]
          (snd (tick True False (snd (Memory 0 ''users.json'' (Inr (JArr []))))))))) =
     Some [JArr [], JArr [stored]]"
proof -
  let ?m = "snd (Memory 0 ''users.json'' (Inr (JArr [])))"
  have h: "interval ?m = Some 10000" by (simp add: Memory_def Let_def)
  have t: "memoryTable (after_sets [JArr [stored]] (snd (tick True False ?m)))
             = [JArr [], JArr [stored]]"
    by (simp add: after_sets_def memory_set_def set_add_def tick_def flushToDisk_def Memory_def
          Let_def)
  from flush_failures [of 0 "''users.json''" IOError ?m 10000 True False "[JArr [stored]]"] h t
  show ?thesis by simp
qed

text \<open>
  Claim C10 as stated fails on the tick. The failed tick throws exactly as the failed
  initial read does, and the process that the uncaught exception ends runs no further
  tick: after a tick whose lock or write failed, the next tick flushes nothing.
\<close>

theorem flush_failure_ends_the_process:
  "start 0 ''users.json'' (Inl IOError) = Exited IOError \<and>
   on_tick False False (on_tick True False (start 0 ''users.json'' (Inr (JArr [])))) =
     Exited LockError \<and>
   on_tick False False (on_tick False True (start 0 ''users.json'' (Inr (JArr [])))) =
     Exited IOError"
  by (simp add: start_def on_tick_def uncaught_def Memory_def tick_def flushToDisk_def Let_def)

end
